theory Spec2Isabelle
  imports Main
begin

section \<open>Python strings\<close>

text \<open>
  A Python \<^verbatim>\<open>str\<close> is a sequence of Unicode code points, so it is modelled as a list of
  natural numbers; \<open>length\<close> is Python's \<^verbatim>\<open>len\<close>. String literals of the source are written
  \<open>str ''...''\<close>.
\<close>

type_synonym pystr = "nat list"

definition str :: "string \<Rightarrow> pystr" where
  "str s = map of_char s"

text \<open>\<^verbatim>\<open>str.isspace\<close> on one code point (CPython's \<^verbatim>\<open>Py_UNICODE_ISSPACE\<close>); it is also the
  class \<^verbatim>\<open>\s\<close> of the \<^verbatim>\<open>re\<close> module on \<^verbatim>\<open>str\<close> patterns and what \<^verbatim>\<open>str.strip()\<close> removes.\<close>

definition isspace :: "nat \<Rightarrow> bool" where
  "isspace c \<longleftrightarrow>
     (9 \<le> c \<and> c \<le> 13) \<or> (28 \<le> c \<and> c \<le> 32) \<or> c = 133 \<or> c = 160 \<or> c = 5760 \<or>
     (8192 \<le> c \<and> c \<le> 8202) \<or> c = 8232 \<or> c = 8233 \<or> c = 8239 \<or> c = 8287 \<or> c = 12288"

definition lstrip :: "pystr \<Rightarrow> pystr" where
  "lstrip s = dropWhile isspace s"

definition rstrip :: "pystr \<Rightarrow> pystr" where
  "rstrip s = rev (dropWhile isspace (rev s))"

definition strip :: "pystr \<Rightarrow> pystr" where
  "strip s = rstrip (lstrip s)"

definition startswith :: "pystr \<Rightarrow> pystr \<Rightarrow> bool" where
  "startswith s p \<longleftrightarrow> take (length p) s = p"

text \<open>\<^verbatim>\<open>s.split(c, 1)\<close> for a character \<open>c\<close> that occurs in \<open>s\<close>: the parts before and after
  its first occurrence.\<close>

definition before_char :: "nat \<Rightarrow> pystr \<Rightarrow> pystr" where
  "before_char c s = takeWhile (\<lambda>x. x \<noteq> c) s"

definition after_char :: "nat \<Rightarrow> pystr \<Rightarrow> pystr" where
  "after_char c s = tl (dropWhile (\<lambda>x. x \<noteq> c) s)"

text \<open>\<^verbatim>\<open>s.split(c)\<close> for a single character \<open>c\<close>.\<close>

fun split_char :: "nat \<Rightarrow> pystr \<Rightarrow> pystr list" where
  "split_char c [] = [[]]"
| "split_char c (x # xs) =
     (if x = c then [] # split_char c xs
      else (case split_char c xs of [] \<Rightarrow> [[x]] | y # ys \<Rightarrow> (x # y) # ys))"

text \<open>\<^verbatim>\<open>sep.join(parts)\<close>.\<close>

fun join :: "pystr \<Rightarrow> pystr list \<Rightarrow> pystr" where
  "join sep [] = []"
| "join sep [p] = p"
| "join sep (p # q # ps) = p @ sep @ join sep (q # ps)"

text \<open>\<^verbatim>\<open>s.split(sep, 1)[-1]\<close>: what follows the first occurrence of \<open>sep\<close>, or all of \<open>s\<close>
  when \<open>sep\<close> does not occur.\<close>

fun after_sep :: "pystr \<Rightarrow> pystr \<Rightarrow> pystr option" where
  "after_sep sep [] = None"
| "after_sep sep (x # xs) =
     (if startswith (x # xs) sep then Some (drop (length sep) (x # xs)) else after_sep sep xs)"

definition split1_last :: "pystr \<Rightarrow> pystr \<Rightarrow> pystr" where
  "split1_last sep s = (case after_sep sep s of Some r \<Rightarrow> r | None \<Rightarrow> s)"

abbreviation cp :: "char \<Rightarrow> nat" where
  "cp c \<equiv> of_char c"

section \<open>The interpreter and its libraries\<close>

text \<open>A value decoded from JSON by \<^verbatim>\<open>resp.json()\<close>, and a value handed to \<^verbatim>\<open>json.dumps\<close>.
  A float carries its \<^verbatim>\<open>repr\<close>; an object is a \<^verbatim>\<open>dict\<close>, each key listed once.\<close>

datatype json =
    JNull
  | JBool bool
  | JInt int
  | JFloat pystr
  | JStr pystr
  | JArr "json list"
  | JObj "(pystr \<times> json) list"

text \<open>
  The two scripts run on CPython and call \<^verbatim>\<open>urllib.parse\<close>, \<^verbatim>\<open>int\<close> and \<^verbatim>\<open>str\<close> of its
  library. The definitions below follow CPython 3.11. Five parts of the libraries are taken
  as parameters, because they depend on tables or settings outside the scripts:
  \<^item> \<open>bracketed_host_ok\<close>: \<^verbatim>\<open>_check_bracketed_host\<close> of \<^verbatim>\<open>urllib.parse\<close> returns without raising
    (it parses the text between \<^verbatim>\<open>[\<close> and \<^verbatim>\<open>]\<close> with the \<^verbatim>\<open>ipaddress\<close> module);
  \<^item> \<open>nfkc\<close>: \<^verbatim>\<open>unicodedata.normalize('NFKC', s)\<close>;
  \<^item> \<open>int_max_str_digits\<close>: \<^verbatim>\<open>sys.get_int_max_str_digits()\<close>, 4300 unless configured, 0 for
    no limit;
  \<^item> \<open>container_str\<close>: \<^verbatim>\<open>str(v)\<close> for a decoded JSON array or object \<open>v\<close>;
  \<^item> \<open>prompt_stays_open\<close>: what the prompt layer does when a validator raises: \<open>True\<close> when
    the prompt stays open and takes the next entry, \<open>False\<close> when the exception leaves the
    prompt. Both occur, depending on how the keys reach the prompt.
\<close>

record runtime =
  bracketed_host_ok :: "pystr \<Rightarrow> bool"
  nfkc :: "pystr \<Rightarrow> pystr"
  int_max_str_digits :: nat
  container_str :: "json \<Rightarrow> pystr"
  prompt_stays_open :: bool

datatype exn = ValueError | IndexError | AttributeError | TypeError

subsection \<open>urllib.parse\<close>

record parse_result =
  scheme :: pystr
  netloc :: pystr
  path :: pystr
  params :: pystr
  query :: pystr
  fragment :: pystr

definition uses_netloc :: "pystr list" where
  "uses_netloc = map str ['''', ''ftp'', ''http'', ''gopher'', ''nntp'', ''telnet'',
     ''imap'', ''wais'', ''file'', ''mms'', ''https'', ''shttp'',
     ''snews'', ''prospero'', ''rtsp'', ''rtsps'', ''rtspu'', ''rsync'',
     ''svn'', ''svn+ssh'', ''sftp'', ''nfs'', ''git'', ''git+ssh'',
     ''ws'', ''wss'']"

definition uses_params :: "pystr list" where
  "uses_params = map str ['''', ''ftp'', ''hdl'', ''prospero'', ''http'', ''imap'',
     ''https'', ''shttp'', ''rtsp'', ''rtsps'', ''rtspu'', ''sip'',
     ''sips'', ''mms'', ''sftp'', ''tel'']"

definition isascii_alpha :: "nat \<Rightarrow> bool" where
  "isascii_alpha c \<longleftrightarrow> (65 \<le> c \<and> c \<le> 90) \<or> (97 \<le> c \<and> c \<le> 122)"

definition scheme_char :: "nat \<Rightarrow> bool" where
  "scheme_char c \<longleftrightarrow> isascii_alpha c \<or> (48 \<le> c \<and> c \<le> 57) \<or> c = 43 \<or> c = 45 \<or> c = 46"

definition lower :: "nat \<Rightarrow> nat" where
  "lower c = (if 65 \<le> c \<and> c \<le> 90 then c + 32 else c)"

text \<open>The start of \<^verbatim>\<open>urlsplit\<close>: leading C0 controls and spaces are dropped, then every tab,
  carriage return and newline is removed.\<close>

definition sanitize :: "pystr \<Rightarrow> pystr" where
  "sanitize url = filter (\<lambda>c. c \<noteq> 9 \<and> c \<noteq> 13 \<and> c \<noteq> 10) (dropWhile (\<lambda>c. c \<le> 32) url)"

text \<open>The scheme, when the text before the first colon is a non-empty run of scheme characters
  starting with an ASCII letter.\<close>

definition split_scheme :: "pystr \<Rightarrow> pystr \<times> pystr" where
  "split_scheme url =
     (let s = before_char (cp CHR '':'') url in
      if cp CHR '':'' \<in> set url \<and> s \<noteq> [] \<and> (case url of [] \<Rightarrow> False | c # _ \<Rightarrow> isascii_alpha c)
         \<and> list_all scheme_char s
      then (map lower s, after_char (cp CHR '':'') url)
      else ([], url))"

definition is_delim :: "nat \<Rightarrow> bool" where
  "is_delim c \<longleftrightarrow> c = cp CHR ''/'' \<or> c = cp CHR ''?'' \<or> c = cp CHR ''#''"

text \<open>\<^verbatim>\<open>_splitnetloc(url, 2)\<close>.\<close>

definition splitnetloc :: "pystr \<Rightarrow> pystr \<times> pystr" where
  "splitnetloc url =
     (takeWhile (\<lambda>c. \<not> is_delim c) (drop 2 url), dropWhile (\<lambda>c. \<not> is_delim c) (drop 2 url))"

text \<open>The two bracket checks of \<^verbatim>\<open>urlsplit\<close>; \<open>True\<close> when neither raises.\<close>

definition brackets_ok :: "runtime \<Rightarrow> pystr \<Rightarrow> bool" where
  "brackets_ok rt nl =
     (let ob = (cp CHR ''['' \<in> set nl); cb = (cp CHR '']'' \<in> set nl) in
      if ob \<and> cb then bracketed_host_ok rt (before_char (cp CHR '']'') (after_char (cp CHR ''['') nl))
      else if ob then False
      else if cb then False
      else True)"

text \<open>\<^verbatim>\<open>_checknetloc\<close>; \<open>True\<close> when it does not raise.\<close>

definition checknetloc :: "runtime \<Rightarrow> pystr \<Rightarrow> bool" where
  "checknetloc rt nl =
     (if nl = [] then True
      else if list_all (\<lambda>c. c < 128) nl then True
      else let n = filter (\<lambda>c. c \<noteq> cp CHR ''@'' \<and> c \<noteq> cp CHR '':'' \<and> c \<noteq> cp CHR ''#'' \<and> c \<noteq> cp CHR ''?'') nl;
               n2 = nfkc rt n
           in if n = n2 then True
              else if list_ex (\<lambda>c. c \<in> set n2) (str ''/?#@:'') then False
              else True)"

definition split_at :: "nat \<Rightarrow> pystr \<Rightarrow> pystr \<times> pystr" where
  "split_at c url = (if c \<in> set url then (before_char c url, after_char c url) else (url, []))"

text \<open>\<^verbatim>\<open>urlsplit(url)\<close> with the default empty scheme: scheme, netloc, path, query, fragment.\<close>

definition urlsplit :: "runtime \<Rightarrow> pystr \<Rightarrow> exn + (pystr \<times> pystr \<times> pystr \<times> pystr \<times> pystr)" where
  "urlsplit rt url0 =
     (let (sch, url1) = split_scheme (sanitize url0);
          (nl, url2) = (if take 2 url1 = str ''//'' then splitnetloc url1 else ([], url1))
      in if \<not> brackets_ok rt nl then Inl ValueError
         else let (url3, frag) = split_at (cp CHR ''#'') url2;
                  (url4, qry) = split_at (cp CHR ''?'') url3
              in if \<not> checknetloc rt nl then Inl ValueError
                 else Inr (sch, nl, url4, qry, frag))"

text \<open>\<^verbatim>\<open>_splitparams\<close>: the parameters are what follows the first semicolon of the last path
  segment. Without a slash and without a semicolon \<^verbatim>\<open>find\<close> gives \<^verbatim>\<open>-1\<close> and the slices are
  \<^verbatim>\<open>url[:-1]\<close> and \<^verbatim>\<open>url[0:]\<close>.\<close>

definition splitparams :: "pystr \<Rightarrow> pystr \<times> pystr" where
  "splitparams url =
     (if cp CHR ''/'' \<in> set url then
        (let seg = rev (takeWhile (\<lambda>c. c \<noteq> cp CHR ''/'') (rev url));
             hd_part = take (length url - length seg) url
         in if cp CHR '';'' \<in> set seg
            then (hd_part @ before_char (cp CHR '';'') seg, after_char (cp CHR '';'') seg)
            else (url, []))
      else if cp CHR '';'' \<in> set url then (before_char (cp CHR '';'') url, after_char (cp CHR '';'') url)
      else (butlast url, url))"

definition urlparse :: "runtime \<Rightarrow> pystr \<Rightarrow> exn + parse_result" where
  "urlparse rt url =
     (case urlsplit rt url of
        Inl e \<Rightarrow> Inl e
      | Inr (sch, nl, p, qry, frag) \<Rightarrow>
          (let (p', prm) = (if sch \<in> set uses_params \<and> cp CHR '';'' \<in> set p then splitparams p else (p, []))
           in Inr \<lparr>scheme = sch, netloc = nl, path = p', params = prm, query = qry, fragment = frag\<rparr>))"

definition urlunsplit :: "pystr \<times> pystr \<times> pystr \<times> pystr \<times> pystr \<Rightarrow> pystr" where
  "urlunsplit comps =
     (case comps of (sch, nl, url, qry, frag) \<Rightarrow>
        (let url1 = (if nl \<noteq> [] \<or> (sch \<noteq> [] \<and> sch \<in> set uses_netloc) \<or> take 2 url = str ''//''
                     then str ''//'' @ nl @ (if url \<noteq> [] \<and> take 1 url \<noteq> str ''/'' then str ''/'' @ url else url)
                     else url);
             url2 = (if sch \<noteq> [] then sch @ str '':'' @ url1 else url1);
             url3 = (if qry \<noteq> [] then url2 @ str ''?'' @ qry else url2)
         in if frag \<noteq> [] then url3 @ str ''#'' @ frag else url3))"

definition urlunparse :: "parse_result \<Rightarrow> pystr" where
  "urlunparse r =
     urlunsplit (scheme r, netloc r,
                 (if params r \<noteq> [] then path r @ str '';'' @ params r else path r),
                 query r, fragment r)"

subsection \<open>str.isdigit, int and str\<close>

text \<open>The code points of the decimal digits zero (Unicode 14.0, general category Nd); the
  nine code points after each are its digits one to nine.\<close>

definition decimal_zeros :: "nat list" where
  "decimal_zeros =
    [48, 1632, 1776, 1984, 2406, 2534, 2662, 2790, 2918, 3046, 3174, 3302, 3430, 3558,
     3664, 3792, 3872, 4160, 4240, 6112, 6160, 6470, 6608, 6784, 6800, 6992, 7088, 7232,
     7248, 42528, 43216, 43264, 43472, 43504, 43600, 44016, 65296, 66720, 68912, 69734,
     69872, 69942, 70096, 70384, 70736, 70864, 71248, 71360, 71472, 71904, 72016, 72784,
     73040, 73120, 92768, 92864, 93008, 120782, 120792, 120802, 120812, 120822, 123200,
     123632, 125264, 130032]"

text \<open>The other code points with \<^verbatim>\<open>str.isdigit\<close> (superscripts, circled digits and the like),
  as ranges with both ends included.\<close>

definition other_digits :: "(nat \<times> nat) list" where
  "other_digits =
    [(178, 179), (185, 185), (4969, 4977), (6618, 6618), (8304, 8304), (8308, 8313),
     (8320, 8329), (9312, 9320), (9332, 9340), (9352, 9360), (9450, 9450), (9461, 9469),
     (9471, 9471), (10102, 10110), (10112, 10120), (10122, 10130), (68160, 68163),
     (69216, 69224), (69714, 69722), (127232, 127242)]"

text \<open>The decimal value of a code point, \<open>None\<close> when it is not a decimal digit.\<close>

definition decimal_value :: "nat \<Rightarrow> nat option" where
  "decimal_value c =
     (case filter (\<lambda>z. z \<le> c \<and> c < z + 10) decimal_zeros of
        [] \<Rightarrow> None
      | z # _ \<Rightarrow> Some (c - z))"

definition isdigit_char :: "nat \<Rightarrow> bool" where
  "isdigit_char c \<longleftrightarrow>
     decimal_value c \<noteq> None \<or> list_ex (\<lambda>(a, b). a \<le> c \<and> c \<le> b) other_digits"

text \<open>\<^verbatim>\<open>s.isdigit()\<close>.\<close>

definition isdigit :: "pystr \<Rightarrow> bool" where
  "isdigit s \<longleftrightarrow> s \<noteq> [] \<and> list_all isdigit_char s"

fun digits_value :: "pystr \<Rightarrow> nat \<Rightarrow> nat option" where
  "digits_value [] acc = Some acc"
| "digits_value (c # cs) acc =
     (case decimal_value c of
        None \<Rightarrow> None
      | Some d \<Rightarrow> digits_value cs (10 * acc + d))"

text \<open>
  \<^verbatim>\<open>int(s)\<close> for a string with \<^verbatim>\<open>s.isdigit()\<close>, the only strings the script converts: every
  character must be a decimal digit, and a string of more than 640 digits is refused when it
  is longer than the interpreter's limit.
\<close>

definition exceeds_digit_limit :: "runtime \<Rightarrow> pystr \<Rightarrow> bool" where
  "exceeds_digit_limit rt s \<longleftrightarrow>
     640 < length s \<and> 0 < int_max_str_digits rt \<and> int_max_str_digits rt < length s"

definition py_int :: "runtime \<Rightarrow> pystr \<Rightarrow> exn + int" where
  "py_int rt s =
     (case digits_value s 0 of
        None \<Rightarrow> Inl ValueError
      | Some v \<Rightarrow> if exceeds_digit_limit rt s then Inl ValueError else Inr (int v))"

fun nat_digits :: "nat \<Rightarrow> pystr" where
  "nat_digits n = (if n < 10 then [48 + n] else nat_digits (n div 10) @ [48 + n mod 10])"

definition int_str :: "int \<Rightarrow> pystr" where
  "int_str i = (if i < 0 then 45 # nat_digits (nat (- i)) else nat_digits (nat i))"

text \<open>\<^verbatim>\<open>str(v)\<close>, as an f-string formats a decoded value; \<^verbatim>\<open>None\<close> is \<open>JNull\<close>.\<close>

fun py_str :: "runtime \<Rightarrow> json \<Rightarrow> pystr" where
  "py_str rt (JStr s) = s"
| "py_str rt JNull = str ''None''"
| "py_str rt (JBool b) = (if b then str ''True'' else str ''False'')"
| "py_str rt (JInt i) = int_str i"
| "py_str rt (JFloat r) = r"
| "py_str rt (JArr xs) = container_str rt (JArr xs)"
| "py_str rt (JObj kvs) = container_str rt (JObj kvs)"

text \<open>\<^verbatim>\<open>d.get(k)\<close> on a dictionary.\<close>

definition dict_get :: "(pystr \<times> json) list \<Rightarrow> pystr \<Rightarrow> json" where
  "dict_get d k = (case map_of d k of None \<Rightarrow> JNull | Some v \<Rightarrow> v)"

section \<open>The web text extractor: \<^verbatim>\<open>scrape_the_web.py\<close>\<close>

subsection \<open>URL completion\<close>

text \<open>
  \<^verbatim>\<open>_autocomplete_url\<close>. The first branch calls \<^verbatim>\<open>urlparse\<close> inside \<^verbatim>\<open>try ... except ValueError\<close>;
  the call \<^verbatim>\<open>urlparse(f"//{partial_url}")\<close> of the second branch is outside any \<^verbatim>\<open>try\<close>, so its
  exception leaves the function (\<open>Inl\<close>).
\<close>

definition autocomplete_url :: "runtime \<Rightarrow> pystr \<Rightarrow> exn + pystr" where
  "autocomplete_url rt url =
     (let partial_url = strip url in
      if partial_url = [] then Inr []
      else if list_ex (startswith partial_url)
                [str ''http://'', str ''https://'', str ''ftp://'', str ''ftps://'']
      then (case urlparse rt partial_url of
              Inl e \<Rightarrow> (if e = ValueError then Inr (str ''https://'' @ partial_url) else Inl e)
            | Inr parsed \<Rightarrow>
                if netloc parsed \<noteq> [] then Inr (urlunparse parsed)
                else (let domain_part = split1_last (str ''//'') partial_url in
                      if domain_part = [] then Inr (str ''https://'' @ domain_part)
                      else if cp CHR ''.'' \<in> set domain_part then Inr (str ''https://'' @ domain_part)
                      else Inr (str ''https://'' @ domain_part @ str ''.com'')))
      else (case urlparse rt (str ''//'' @ partial_url) of
              Inl e \<Rightarrow> Inl e
            | Inr parsed \<Rightarrow>
                (case split_char (cp CHR ''/'') partial_url of
                   [] \<Rightarrow> Inl IndexError
                 | first_segment # path_parts \<Rightarrow>
                     (let (netloc1, path1) =
                            (if netloc parsed = [] then
                               (if first_segment \<noteq> [] \<and> cp CHR ''.'' \<in> set first_segment
                                then (first_segment,
                                      if path_parts \<noteq> [] then str ''/'' @ join (str ''/'') path_parts else [])
                                else if first_segment \<noteq> []
                                then (first_segment @ str ''.com'',
                                      if path_parts \<noteq> [] then str ''/'' @ join (str ''/'') path_parts else [])
                                else (str ''example.com'', path parsed))
                             else (netloc parsed, path parsed));
                          path2 = (if netloc1 \<noteq> [] \<and> path1 \<noteq> [] \<and> \<not> startswith path1 (str ''/'')
                                   then str ''/'' @ path1 else path1);
                          path3 = (if netloc1 \<noteq> [] \<and> path2 = [] then str ''/'' else path2)
                      in Inr (urlunparse \<lparr>scheme = str ''https'', netloc = netloc1, path = path3,
                                params = [], query = query parsed, fragment = fragment parsed\<rparr>)))))"

subsection \<open>Fetching and shaping the text\<close>

text \<open>
  The transport and the HTML parser are outside the script. \<open>http_get url\<close> stands for the
  statements from \<^verbatim>\<open>requests.get\<close> to \<^verbatim>\<open>soup.get_text(separator="\n", strip=True)\<close>: it gives the
  linearised text, or the exception that was raised, classified by the first \<^verbatim>\<open>except\<close> clause
  that catches it, with its \<^verbatim>\<open>str(e)\<close>.
\<close>

datatype fetch_error =
    HTTPError pystr
  | ConnectionError pystr
  | Timeout pystr
  | RequestException pystr
  | OtherException pystr

fun error_message :: "fetch_error \<Rightarrow> pystr" where
  "error_message (HTTPError e) = str ''HTTP error occurred: '' @ e"
| "error_message (ConnectionError e) = str ''Connection error: '' @ e"
| "error_message (Timeout e) = str ''Request timed out: '' @ e"
| "error_message (RequestException e) = str ''Error during web request: '' @ e"
| "error_message (OtherException e) = str ''An unexpected error occurred: '' @ e"

text \<open>
  \<^verbatim>\<open>re.sub(r'\n\s*\n', '\n', text)\<close>: the leftmost match starts at a newline and, \<^verbatim>\<open>\s*\<close> being
  greedy, ends at the last newline of the whitespace run that follows it; the scan goes on
  after the match.
\<close>

fun collapse_blank :: "pystr \<Rightarrow> pystr" where
  "collapse_blank [] = []"
| "collapse_blank (c # cs) =
     (if c = 10 \<and> 10 \<in> set (takeWhile isspace cs)
      then 10 # collapse_blank
             (drop (length (takeWhile isspace cs)
                    - length (takeWhile (\<lambda>x. x \<noteq> 10) (rev (takeWhile isspace cs)))) cs)
      else c # collapse_blank cs)"

text \<open>The dictionary handed to \<^verbatim>\<open>json.dumps\<close>, in insertion order.\<close>

type_synonym envelope = "(string \<times> pystr) list"

definition max_len :: nat where
  "max_len = 5000"

definition truncate_content :: "pystr \<Rightarrow> pystr" where
  "truncate_content text_content =
     (if length text_content > max_len
      then take max_len text_content @ 10 # str ''... (content truncated)''
      else text_content)"

definition content_preview :: "pystr \<Rightarrow> pystr" where
  "content_preview text_content =
     take 200 text_content @ (if length text_content > 200 then str ''...'' else [])"

text \<open>The result of a call: the returned envelope or the exception that leaves the function,
  and the URLs handed to \<^verbatim>\<open>requests.get\<close>.\<close>

record scrape_result =
  outcome :: "exn + envelope"
  requested :: "pystr list"

definition scrapeweb :: "runtime \<Rightarrow> (pystr \<Rightarrow> fetch_error + pystr) \<Rightarrow> pystr \<Rightarrow> scrape_result" where
  "scrapeweb rt http_get url =
     (if url = [] \<or> strip url = [] then
        \<lparr>outcome = Inr [(''status'', str ''error''), (''message'', str ''URL cannot be empty.'')],
         requested = []\<rparr>
      else
        (case autocomplete_url rt url of
           Inl e \<Rightarrow> \<lparr>outcome = Inl e, requested = []\<rparr>
         | Inr completed_url \<Rightarrow>
             (case urlparse rt completed_url of
                Inl e \<Rightarrow>
                  (if e = ValueError then
                     \<lparr>outcome = Inr [(''status'', str ''error''), (''original_url'', url),
                                     (''attempted_url'', completed_url),
                                     (''message'', str ''The constructed URL is invalid and cannot be parsed.'')],
                      requested = []\<rparr>
                   else \<lparr>outcome = Inl e, requested = []\<rparr>)
              | Inr parsed_final_url \<Rightarrow>
                  if scheme parsed_final_url = [] \<or> netloc parsed_final_url = [] then
                    \<lparr>outcome = Inr [(''status'', str ''error''), (''original_url'', url),
                                    (''attempted_url'', completed_url),
                                    (''message'', str ''Failed to construct a valid, absolute URL. Scheme or domain is missing.'')],
                     requested = []\<rparr>
                  else
                    (case http_get completed_url of
                       Inl err \<Rightarrow>
                         \<lparr>outcome = Inr [(''status'', str ''error''), (''original_url'', url),
                                         (''scraped_url'', completed_url),
                                         (''message'', error_message err)],
                          requested = [completed_url]\<rparr>
                     | Inr raw \<Rightarrow>
                         (let text_content = truncate_content (strip (collapse_blank raw)) in
                          \<lparr>outcome = Inr [(''status'', str ''success''), (''original_url'', url),
                                          (''scraped_url'', completed_url),
                                          (''content_preview'', content_preview text_content),
                                          (''full_content'', text_content)],
                           requested = [completed_url]\<rparr>)))))"

text \<open>Reading an envelope.\<close>

definition field :: "envelope \<Rightarrow> string \<Rightarrow> pystr option" where
  "field env k = map_of env k"

definition is_success :: "envelope \<Rightarrow> bool" where
  "is_success env \<longleftrightarrow> field env ''status'' = Some (str ''success'')"

definition is_error :: "envelope \<Rightarrow> bool" where
  "is_error env \<longleftrightarrow> field env ''status'' = Some (str ''error'')"

section \<open>The news query tool: \<^verbatim>\<open>newsasker.py\<close>\<close>

subsection \<open>The prompts\<close>

text \<open>
  The prompt layer is outside the script. What the user enters is given beforehand: one
  answer for each plain prompt, and for the page-size prompt the successive texts submitted
  to it. A prompt with a validator returns the first text the validator accepts; a rejected
  text leaves the prompt open, and \<open>None\<close> says that it is still open after the last entry.
  When the validator raises, the prompt either stays open for the next entry or lets the
  exception leave, as the parameter \<open>stay\<close> says.
\<close>

datatype endpoint = TopHeadlines | Everything

fun endpoint_name :: "endpoint \<Rightarrow> pystr" where
  "endpoint_name TopHeadlines = str ''top-headlines''"
| "endpoint_name Everything = str ''everything''"

record answers =
  endpoint_choice :: endpoint
  api_key :: pystr
  country :: pystr
  category :: pystr
  search_keywords :: pystr
  from_date :: pystr
  page_size_entries :: "pystr list"

fun prompt_validated ::
    "bool \<Rightarrow> (pystr \<Rightarrow> exn + bool) \<Rightarrow> pystr list \<Rightarrow> (exn + pystr) option" where
  "prompt_validated stay validate [] = None"
| "prompt_validated stay validate (entry # entries) =
     (case validate entry of
        Inl e \<Rightarrow> if stay then prompt_validated stay validate entries else Some (Inl e)
      | Inr ok \<Rightarrow> if ok then Some (Inr entry) else prompt_validated stay validate entries)"

text \<open>The validator of the page-size prompt: \<^verbatim>\<open>lambda val: val.isdigit() and 1 <= int(val) <= 100\<close>.\<close>

definition page_size_validate :: "runtime \<Rightarrow> pystr \<Rightarrow> exn + bool" where
  "page_size_validate rt val =
     (if isdigit val then
        (case py_int rt val of
           Inl e \<Rightarrow> Inl e
         | Inr n \<Rightarrow> Inr (1 \<le> n \<and> n \<le> 100))
      else Inr False)"

subsection \<open>The request parameters\<close>

datatype pval = PStr pystr | PInt int

type_synonym params = "(string \<times> pval) list"

text \<open>Steps 1 and 2 of \<^verbatim>\<open>fetch_and_display_news\<close>: the dictionary \<^verbatim>\<open>params\<close> in insertion order.\<close>

definition endpoint_params :: "answers \<Rightarrow> params" where
  "endpoint_params a =
     [(''apiKey'', PStr (api_key a))] @
     (case endpoint_choice a of
        TopHeadlines \<Rightarrow>
          (if country a \<noteq> [] then [(''country'', PStr (country a))] else []) @
          (if category a \<noteq> [] then [(''category'', PStr (category a))] else [])
      | Everything \<Rightarrow>
          [(''q'', PStr (search_keywords a))] @
          (if from_date a \<noteq> [] then [(''from'', PStr (from_date a))] else []))"

definition collect_params :: "runtime \<Rightarrow> answers \<Rightarrow> (exn + params) option" where
  "collect_params rt a =
     (case prompt_validated (prompt_stays_open rt) (page_size_validate rt) (page_size_entries a) of
        None \<Rightarrow> None
      | Some (Inl e) \<Rightarrow> Some (Inl e)
      | Some (Inr page_size) \<Rightarrow>
          (case py_int rt page_size of
             Inl e \<Rightarrow> Some (Inl e)
           | Inr n \<Rightarrow> Some (Inr (endpoint_params a @ [(''pageSize'', PInt n)]))))"

subsection \<open>The request and the response\<close>

text \<open>
  \<open>api_get url params\<close> stands for the three statements of the \<^verbatim>\<open>try\<close> block
  (\<^verbatim>\<open>requests.get\<close>, \<^verbatim>\<open>raise_for_status\<close>, \<^verbatim>\<open>resp.json()\<close>): the decoded body, or the \<^verbatim>\<open>str(e)\<close> of
  the exception raised there.
\<close>

definition base_url :: "endpoint \<Rightarrow> pystr" where
  "base_url ep = str ''https://newsapi.org/v2/'' @ endpoint_name ep"

text \<open>The list comprehension over \<^verbatim>\<open>articles\<close>: \<^verbatim>\<open>art.get\<close> exists on dictionaries only, and a
  number, a boolean or \<^verbatim>\<open>None\<close> cannot be iterated.\<close>

fun project_list :: "json list \<Rightarrow> exn + json list" where
  "project_list [] = Inr []"
| "project_list (art # arts) =
     (case art of
        JObj d \<Rightarrow>
          (case project_list arts of
             Inl e \<Rightarrow> Inl e
           | Inr rs \<Rightarrow> Inr (JObj [(str ''title'', dict_get d (str ''title'')),
                                   (str ''url'', dict_get d (str ''url''))] # rs))
      | _ \<Rightarrow> Inl AttributeError)"

definition project_articles :: "json \<Rightarrow> exn + json list" where
  "project_articles articles =
     (case articles of
        JArr arts \<Rightarrow> project_list arts
      | JStr s \<Rightarrow> if s = [] then Inr [] else Inl AttributeError
      | JObj d \<Rightarrow> if d = [] then Inr [] else Inl AttributeError
      | _ \<Rightarrow> Inl TypeError)"

text \<open>Step 5: the lines printed for the article at position \<open>idx\<close>.\<close>

definition article_lines :: "runtime \<Rightarrow> nat \<Rightarrow> json \<Rightarrow> pystr list" where
  "article_lines rt idx art =
     (case art of
        JObj d \<Rightarrow>
          [int_str (int idx) @ str ''. '' @ py_str rt (dict_get d (str ''title'')),
           str ''   '' @ py_str rt (dict_get d (str ''url'')),
           []]
      | _ \<Rightarrow> [])"

fun display :: "runtime \<Rightarrow> nat \<Rightarrow> json list \<Rightarrow> pystr list" where
  "display rt idx [] = []"
| "display rt idx (art # arts) = article_lines rt idx art @ display rt (Suc idx) arts"

fun pval_json :: "pval \<Rightarrow> json" where
  "pval_json (PStr s) = JStr s"
| "pval_json (PInt i) = JInt i"

text \<open>The result of a run: what the function returns (\<open>None\<close> while a prompt is still open,
  \<open>Inl\<close> for an exception that leaves it), the lines written to standard output, and the
  requests issued.\<close>

record news_result =
  returned :: "(exn + json) option"
  printed :: "pystr list"
  api_calls :: "(pystr \<times> params) list"

definition error_envelope :: "pystr \<Rightarrow> json" where
  "error_envelope msg = JObj [(str ''status'', JStr (str ''error'')), (str ''message'', JStr msg)]"

definition fetch_and_display_news ::
    "runtime \<Rightarrow> (pystr \<Rightarrow> params \<Rightarrow> pystr + json) \<Rightarrow> answers \<Rightarrow> news_result" where
  "fetch_and_display_news rt api_get a =
     (case collect_params rt a of
        None \<Rightarrow> \<lparr>returned = None, printed = [], api_calls = []\<rparr>
      | Some (Inl e) \<Rightarrow> \<lparr>returned = Some (Inl e), printed = [], api_calls = []\<rparr>
      | Some (Inr ps) \<Rightarrow>
          (let url = base_url (endpoint_choice a); calls = [(url, ps)] in
           case api_get url ps of
             Inl e \<Rightarrow>
               \<lparr>returned = Some (Inr (error_envelope (str ''API request failed: '' @ e))),
                printed = [], api_calls = calls\<rparr>
           | Inr data \<Rightarrow>
               (case data of
                  JObj d \<Rightarrow>
                    (let status = dict_get d (str ''status'') in
                     if status \<noteq> JStr (str ''ok'') then
                       \<lparr>returned = Some (Inr (error_envelope
                           (str ''API returned status '' @ [39] @ py_str rt status @ [39] @ str '': ''
                            @ py_str rt (dict_get d (str ''message''))))),
                        printed = [], api_calls = calls\<rparr>
                     else
                       (case project_articles
                               (case map_of d (str ''articles'') of None \<Rightarrow> JArr [] | Some v \<Rightarrow> v) of
                          Inl e \<Rightarrow> \<lparr>returned = Some (Inl e), printed = [], api_calls = calls\<rparr>
                        | Inr results \<Rightarrow>
                            \<lparr>returned = Some (Inr (JObj
                               [(str ''status'', JStr (str ''success'')),
                                (str ''endpoint'', JStr (endpoint_name (endpoint_choice a))),
                                (str ''params'', JObj (map (\<lambda>(k, v). (str k, pval_json v)) ps)),
                                (str ''articles'', JArr results)])),
                             printed = display rt 1 results, api_calls = calls\<rparr>))
                | _ \<Rightarrow> \<lparr>returned = Some (Inl AttributeError), printed = [], api_calls = calls\<rparr>)))"

section \<open>A runtime for concrete inputs\<close>

text \<open>
  The digit limit is the interpreter's default. The other four parameters are stand-ins:
  the concrete inputs evaluated below have no bracket and no non-ASCII character in a
  network location, print no array or object, and submit no entry on which the validator
  raises, so that no stand-in is consulted.
\<close>

definition test_runtime :: runtime where
  "test_runtime =
     \<lparr>bracketed_host_ok = (\<lambda>_. False), nfkc = (\<lambda>s. s), int_max_str_digits = 4300,
      container_str = (\<lambda>_. []), prompt_stays_open = True\<rparr>"

text \<open>A transport that answers every request with the text \<open>raw\<close>.\<close>

definition serve :: "pystr \<Rightarrow> pystr \<Rightarrow> fetch_error + pystr" where
  "serve raw url = Inr raw"

text \<open>A field of the returned envelope, \<open>None\<close> when there is none.\<close>

definition result_field :: "scrape_result \<Rightarrow> string \<Rightarrow> pystr option" where
  "result_field r k = (case outcome r of Inl e \<Rightarrow> None | Inr env \<Rightarrow> field env k)"

text \<open>A news service that answers every request with the decoded body \<open>body\<close>.\<close>

definition respond :: "json \<Rightarrow> pystr \<Rightarrow> params \<Rightarrow> pystr + json" where
  "respond body url ps = Inr body"

text \<open>The answers of a user who chooses the endpoint \<^verbatim>\<open>everything\<close>, enters the API key
  \<^verbatim>\<open>key\<close>, the keywords \<open>kw\<close> and the date \<open>fd\<close>, and submits \<open>entries\<close> to the page-size prompt.\<close>

definition everything_query :: "pystr \<Rightarrow> pystr \<Rightarrow> pystr list \<Rightarrow> answers" where
  "everything_query kw fd entries =
     \<lparr>endpoint_choice = Everything, api_key = str ''key'', country = [], category = [],
      search_keywords = kw, from_date = fd, page_size_entries = entries\<rparr>"

section \<open>Properties of the web text extractor\<close>

subsection \<open>Stripping and text extraction\<close>

lemma rstrip_idem: "rstrip (rstrip s) = rstrip s"
  by (simp add: rstrip_def dropWhile_idem)

lemma rstrip_prefix: "\<exists>w. s = rstrip s @ w"
proof -
  have "s = rstrip s @ rev (takeWhile isspace (rev s))"
    unfolding rstrip_def by (metis rev_append rev_rev_ident takeWhile_dropWhile_id)
  then show ?thesis ..
qed

lemma lstrip_rstrip_lstrip: "lstrip (rstrip (lstrip s)) = rstrip (lstrip s)"
proof (cases "rstrip (lstrip s) = []")
  case True
  then show ?thesis by (simp add: lstrip_def)
next
  case False
  obtain w where w: "lstrip s = rstrip (lstrip s) @ w" using rstrip_prefix by blast
  from False w have ne: "lstrip s \<noteq> []" by auto
  have "\<not> isspace (hd (lstrip s))" using ne unfolding lstrip_def by (rule hd_dropWhile)
  moreover have "hd (lstrip s) = hd (rstrip (lstrip s))" using False w by (metis hd_append2)
  ultimately have "\<not> isspace (hd (rstrip (lstrip s)))" by simp
  then show ?thesis using False unfolding lstrip_def[of "rstrip (lstrip s)"]
    by (cases "rstrip (lstrip s)") auto
qed

lemma strip_idem: "strip (strip s) = strip s"
  by (simp add: strip_def lstrip_rstrip_lstrip rstrip_idem)

lemma strip_empty_iff: "strip s = [] \<longleftrightarrow> list_all isspace s"
proof
  assume e: "strip s = []"
  have "dropWhile isspace s = []"
  proof (rule ccontr)
    assume ne: "dropWhile isspace s \<noteq> []"
    then have "\<not> isspace (hd (dropWhile isspace s))" by (rule hd_dropWhile)
    moreover have "hd (dropWhile isspace s) \<in> set (dropWhile isspace s)" using ne by simp
    moreover from e have "\<forall>x\<in>set (dropWhile isspace s). isspace x"
      by (simp add: strip_def lstrip_def rstrip_def dropWhile_eq_Nil_conv)
    ultimately show False by blast
  qed
  then show "list_all isspace s" by (simp add: list_all_iff)
next
  assume "list_all isspace s"
  then have d: "dropWhile isspace s = []" by (simp add: list_all_iff)
  show "strip s = []" unfolding strip_def lstrip_def rstrip_def d by simp
qed


lemma collapse_blank_id: "10 \<notin> set s \<Longrightarrow> collapse_blank s = s"
  by (induction s) auto

lemma strip_id: "s \<noteq> [] \<Longrightarrow> \<not> isspace (hd s) \<Longrightarrow> \<not> isspace (last s) \<Longrightarrow> strip s = s"
proof -
  assume a: "s \<noteq> []" "\<not> isspace (hd s)" "\<not> isspace (last s)"
  have l: "dropWhile isspace s = s" using a by (simp add: dropWhile_eq_self_iff)
  have r: "dropWhile isspace (rev s) = rev s" using a by (simp add: dropWhile_eq_self_iff hd_rev)
  show ?thesis unfolding strip_def lstrip_def rstrip_def l r by simp
qed

lemma extract_replicate:
  "0 < n \<Longrightarrow> c \<noteq> 10 \<Longrightarrow> \<not> isspace c \<Longrightarrow> strip (collapse_blank (replicate n c)) = replicate n c"
  by (simp add: collapse_blank_id strip_id)

lemma str_neq: "str ''error'' \<noteq> str ''success''"
  by (simp add: str_def)

lemma scrapeweb_success_shape:
  assumes "outcome (scrapeweb rt g url) = Inr env" and "is_success env"
  shows "\<exists>cu raw. requested (scrapeweb rt g url) = [cu] \<and> g cu = Inr raw \<and>
           env = [(''status'', str ''success''), (''original_url'', url), (''scraped_url'', cu),
                  (''content_preview'', content_preview (truncate_content (strip (collapse_blank raw)))),
                  (''full_content'', truncate_content (strip (collapse_blank raw)))]"
  using assms
  by (auto simp add: scrapeweb_def is_success_def field_def Let_def str_neq
      split: sum.splits if_splits)

lemma scrapeweb_fetch:
  assumes "strip url \<noteq> []" and "autocomplete_url rt url = Inr cu" and "urlparse rt cu = Inr p"
    and "scheme p \<noteq> []" and "netloc p \<noteq> []" and "g cu = Inr raw"
  shows "scrapeweb rt g url =
           \<lparr>outcome = Inr [(''status'', str ''success''), (''original_url'', url), (''scraped_url'', cu),
                  (''content_preview'', content_preview (truncate_content (strip (collapse_blank raw)))),
                  (''full_content'', truncate_content (strip (collapse_blank raw)))],
            requested = [cu]\<rparr>"
  using assms by (auto simp add: scrapeweb_def Let_def strip_def lstrip_def rstrip_def)

lemma preview_truncated:
  "max_len < length t \<Longrightarrow> content_preview (truncate_content t) = take 200 t @ str ''...''"
  by (simp add: content_preview_def truncate_content_def max_len_def)

lemma ac_a_com: "autocomplete_url test_runtime (str ''a.com'') = Inr (str ''https://a.com/'')"
  by code_simp

lemma parse_a_com: "urlparse test_runtime (str ''https://a.com/'') =
   Inr \<lparr>scheme = str ''https'', netloc = str ''a.com'', path = str ''/'', params = [],
          query = [], fragment = []\<rparr>"
  by code_simp

lemma strip_a_com: "strip (str ''a.com'') \<noteq> []"
  by code_simp

lemma scrape_a_com:
  "0 < n \<Longrightarrow> scrapeweb test_runtime (serve (replicate n 97)) (str ''a.com'') =
     \<lparr>outcome = Inr [(''status'', str ''success''), (''original_url'', str ''a.com''),
                     (''scraped_url'', str ''https://a.com/''),
                     (''content_preview'', content_preview (truncate_content (replicate n 97))),
                     (''full_content'', truncate_content (replicate n 97))],
      requested = [str ''https://a.com/'']\<rparr>"
  using scrapeweb_fetch [OF strip_a_com ac_a_com parse_a_com, of "serve (replicate n 97)" "replicate n 97"]
  by (simp add: serve_def extract_replicate isspace_def str_def)

subsection \<open>Splitting and joining URLs\<close>

lemma before_char_append: "c \<notin> set a \<Longrightarrow> before_char c (a @ c # b) = a"
  by (induction a) (auto simp add: before_char_def)

lemma after_char_append: "c \<notin> set a \<Longrightarrow> after_char c (a @ c # b) = b"
  by (induction a) (auto simp add: after_char_def)

lemma split_at_append: "c \<notin> set a \<Longrightarrow> split_at c (a @ c # b) = (a, b)"
  by (simp add: split_at_def before_char_append after_char_append)

lemma split_at_none: "c \<notin> set a \<Longrightarrow> split_at c a = (a, [])"
  by (simp add: split_at_def)

lemma before_after: "c \<in> set s \<Longrightarrow> s = before_char c s @ c # after_char c s"
proof -
  assume c: "c \<in> set s"
  then have ne: "dropWhile (\<lambda>x. x \<noteq> c) s \<noteq> []" by (simp add: dropWhile_eq_Nil_conv) 
  then have "hd (dropWhile (\<lambda>x. x \<noteq> c) s) = c" using hd_dropWhile [of "\<lambda>x. x \<noteq> c" s] by simp
  with ne have "dropWhile (\<lambda>x. x \<noteq> c) s = c # tl (dropWhile (\<lambda>x. x \<noteq> c) s)"
    by (cases "dropWhile (\<lambda>x. x \<noteq> c) s") auto
  then show ?thesis unfolding before_char_def after_char_def
    by (metis takeWhile_dropWhile_id)
qed

lemma notin_before: "c \<notin> set (before_char c s)"
  by (auto simp add: before_char_def dest: set_takeWhileD)

lemma set_before: "set (before_char c s) \<subseteq> set s"
  by (auto simp add: before_char_def dest: set_takeWhileD)

lemma set_after: "set (after_char c s) \<subseteq> set s"
  by (metis after_char_def list.set_sel(2) set_dropWhileD subsetI tl_Nil)

lemma set_split_at: "set (fst (split_at c s)) \<subseteq> set s" "set (snd (split_at c s)) \<subseteq> set s"
  using set_before [of c s] set_after [of c s] by (auto simp add: split_at_def)

lemma notin_fst_split_at: "c \<notin> set (fst (split_at c s))"
  by (simp add: split_at_def notin_before)

lemma fst_split_at_prefix: "\<exists>w. s = fst (split_at c s) @ w"
  using before_after [of c s] by (auto simp add: split_at_def)

lemma takeWhile_exact:
  "list_all P a \<Longrightarrow> b = [] \<or> \<not> P (hd b) \<Longrightarrow> takeWhile P (a @ b) = a"
proof (induction a)
  case Nil
  then show ?case by (cases b) auto
next
  case (Cons x xs)
  then show ?case by auto
qed

lemma dropWhile_exact:
  "list_all P a \<Longrightarrow> b = [] \<or> \<not> P (hd b) \<Longrightarrow> dropWhile P (a @ b) = b"
proof (induction a)
  case Nil
  then show ?case by (cases b) auto
next
  case (Cons x xs)
  then show ?case by auto
qed

lemma split_prefixed:
  assumes "sch \<in> set (map str [''http'', ''https'', ''ftp'', ''ftps''])"
  shows "urlsplit rt (sch @ str ''://'' @ r) =
    (let r' = filter (\<lambda>c. c \<noteq> 9 \<and> c \<noteq> 13 \<and> c \<noteq> 10) r;
         nl = takeWhile (\<lambda>c. \<not> is_delim c) r';
         url2 = dropWhile (\<lambda>c. \<not> is_delim c) r'
     in if \<not> brackets_ok rt nl then Inl ValueError
        else if \<not> checknetloc rt nl then Inl ValueError
        else Inr (sch, nl, fst (split_at (cp CHR ''?'') (fst (split_at (cp CHR ''#'') url2))),
                  snd (split_at (cp CHR ''?'') (fst (split_at (cp CHR ''#'') url2))),
                  snd (split_at (cp CHR ''#'') url2)))"
proof -
  from assms consider "sch = str ''http''" | "sch = str ''https''" | "sch = str ''ftp''" | "sch = str ''ftps''"
    by auto
  then show ?thesis
    by cases
      (simp_all add: urlsplit_def sanitize_def split_scheme_def before_char_def after_char_def
        isascii_alpha_def scheme_char_def lower_def splitnetloc_def str_def Let_def split_beta)
qed

lemma unsplit_split:
  assumes sch: "sch \<in> set (map str [''http'', ''https'', ''ftp'', ''ftps''])"
    and nl: "nl \<noteq> []" "list_all (\<lambda>c. \<not> is_delim c) nl" "brackets_ok rt nl" "checknetloc rt nl"
    and u: "u = [] \<or> (\<exists>t. u = 47 # t)" "63 \<notin> set u" "35 \<notin> set u"
    and q: "35 \<notin> set q"
    and clean: "list_all (\<lambda>c. c \<noteq> 9 \<and> c \<noteq> 13 \<and> c \<noteq> 10) (nl @ u @ q @ f)"
  shows "urlsplit rt (urlunsplit (sch, nl, u, q, f)) = Inr (sch, nl, u, q, f)"
proof -
  define Q where "Q = (if q \<noteq> [] then 63 # q else [])"
  define F where "F = (if f \<noteq> [] then 35 # f else [])"
  from sch have sne: "sch \<noteq> []" by (auto simp add: str_def)
  define R where "R = nl @ u @ Q @ F"
  have t: "(if u \<noteq> [] \<and> take 1 u \<noteq> str ''/'' then str ''/'' @ u else u) = u"
    using u(1) by (auto simp add: str_def)
  have y: "urlunsplit (sch, nl, u, q, f) = sch @ str ''://'' @ R"
    unfolding urlunsplit_def Let_def prod.case t
    by (simp add: nl(1) sne Q_def F_def R_def str_def)
  have "set R \<subseteq> set (nl @ u @ q @ f) \<union> {63, 35}"
    by (auto simp add: R_def Q_def F_def)
  moreover from clean have "\<forall>x\<in>set (nl @ u @ q @ f). x \<noteq> 9 \<and> x \<noteq> 13 \<and> x \<noteq> 10"
    by (simp only: list_all_iff)
  ultimately have "\<forall>x\<in>set R. x \<noteq> 9 \<and> x \<noteq> 13 \<and> x \<noteq> 10"
    by fastforce
  then have cl: "filter (\<lambda>c. c \<noteq> 9 \<and> c \<noteq> 13 \<and> c \<noteq> 10) R = R"
    by (rule filter_True)
  have b: "u @ Q @ F = [] \<or> \<not> (\<not> is_delim (hd (u @ Q @ F)))"
    using u(1) by (auto simp add: Q_def F_def is_delim_def)
  have tw: "takeWhile (\<lambda>c. \<not> is_delim c) R = nl"
    unfolding R_def using nl(2) b by (rule takeWhile_exact)
  have dw: "dropWhile (\<lambda>c. \<not> is_delim c) R = u @ Q @ F"
    unfolding R_def using nl(2) b by (rule dropWhile_exact)
  have "35 \<notin> set (u @ Q)" using u(3) q by (simp add: Q_def)
  then have s1: "split_at 35 (u @ Q @ F) = (u @ Q, f)"
    using split_at_append [of 35 "u @ Q" f] split_at_none [of 35 "u @ Q"] by (simp add: F_def)
  have s2: "split_at 63 (u @ Q) = (u, q)"
    using u(2) split_at_append [of 63 u q] split_at_none [of 63 u] by (simp add: Q_def)
  show ?thesis
    unfolding y split_prefixed [OF sch]
    by (simp add: cl tw dw s1 s2 nl)
qed

lemma splitparams_slash:
  assumes "47 \<notin> set s"
  shows "splitparams (h @ 47 # s) =
          (if 59 \<in> set s then (h @ 47 # before_char 59 s, after_char 59 s) else (h @ 47 # s, []))"
proof -
  have "list_all (\<lambda>c. c \<noteq> 47) (rev s)" using assms by (auto simp add: list_all_iff)
  from takeWhile_exact [OF this, of "47 # rev h"]
  have tw: "takeWhile (\<lambda>c. c \<noteq> 47) (rev s @ 47 # rev h) = rev s" by simp
  show ?thesis
    by (simp add: splitparams_def tw Let_def)
qed

lemma splitparams_noslash:
  "47 \<notin> set u \<Longrightarrow> 59 \<in> set u \<Longrightarrow> splitparams u = (before_char 59 u, after_char 59 u)"
  by (simp add: splitparams_def)

lemma params_roundtrip:
  assumes "(if c \<and> 59 \<in> set u then splitparams u else (u, [])) = (p, m)"
  shows "(if c \<and> 59 \<in> set (if m \<noteq> [] then p @ 59 # m else p)
          then splitparams (if m \<noteq> [] then p @ 59 # m else p)
          else (if m \<noteq> [] then p @ 59 # m else p, [])) = (p, m) \<and>
         (\<exists>w. u = (if m \<noteq> [] then p @ 59 # m else p) @ w)"
proof (cases "c \<and> 59 \<in> set u")
  case False
  with assms show ?thesis by auto
next
  case cu: True
  with assms have sp: "splitparams u = (p, m)" by simp
  show ?thesis
  proof (cases "47 \<in> set u")
    case False
    with cu sp have pm: "p = before_char 59 u" "m = after_char 59 u"
      by (simp_all add: splitparams_noslash)
    from cu have eq: "u = p @ 59 # m" unfolding pm by (simp add: before_after [symmetric])
    show ?thesis
    proof (cases "m = []")
      case True
      have "59 \<notin> set p" unfolding pm by (rule notin_before)
      with True eq show ?thesis by auto
    next
      case False
      with eq cu sp show ?thesis by auto
    qed
  next
    case sl: True
    then obtain h s where hs: "u = h @ 47 # s" "47 \<notin> set s"
      by (meson split_list_last)
    show ?thesis
    proof (cases "59 \<in> set s")
      case False
      with hs sp have "p = u" "m = []" by (simp_all add: splitparams_slash)
      with assms show ?thesis by auto
    next
      case True
      with hs sp have pm: "p = h @ 47 # before_char 59 s" "m = after_char 59 s"
        by (simp_all add: splitparams_slash)
      from True have "s = before_char 59 s @ 59 # after_char 59 s" by (rule before_after)
      with hs pm have eq: "u = p @ 59 # m" by simp
      show ?thesis
      proof (cases "m = []")
        case False
        with eq cu sp show ?thesis by auto
      next
        case True
        have n1: "59 \<notin> set (before_char 59 s)" by (rule notin_before)
        have n2: "47 \<notin> set (before_char 59 s)" using hs(2) set_before [of 59 s] by auto
        have "splitparams p = (p, [])"
          unfolding pm using n1 by (simp add: splitparams_slash [OF n2])
        with True eq show ?thesis by auto
      qed
    qed
  qed
qed

lemma scheme_prefix_cases:
  assumes "list_ex (startswith x) [str ''http://'', str ''https://'', str ''ftp://'', str ''ftps://'']"
  shows "\<exists>sch r. sch \<in> set (map str [''http'', ''https'', ''ftp'', ''ftps'']) \<and> x = sch @ str ''://'' @ r"
proof -
  have k: "startswith x (a @ b) \<Longrightarrow> x = a @ b @ drop (length (a @ b)) x" for a b
    unfolding startswith_def by (metis append_take_drop_id append.assoc)
  have e: "str ''http://'' = str ''http'' @ str ''://''" "str ''https://'' = str ''https'' @ str ''://''"
    "str ''ftp://'' = str ''ftp'' @ str ''://''" "str ''ftps://'' = str ''ftps'' @ str ''://''"
    by (simp_all add: str_def)
  from assms consider "startswith x (str ''http'' @ str ''://'')" | "startswith x (str ''https'' @ str ''://'')"
    | "startswith x (str ''ftp'' @ str ''://'')" | "startswith x (str ''ftps'' @ str ''://'')"
    unfolding e by auto
  then show ?thesis
  proof cases
    case 1
    from k [OF this] show ?thesis by (intro exI [of _ "str ''http''"] exI conjI) (simp, assumption)
  next
    case 2
    from k [OF this] show ?thesis by (intro exI [of _ "str ''https''"] exI conjI) (simp, assumption)
  next
    case 3
    from k [OF this] show ?thesis by (intro exI [of _ "str ''ftp''"] exI conjI) (simp, assumption)
  next
    case 4
    from k [OF this] show ?thesis by (intro exI [of _ "str ''ftps''"] exI conjI) (simp, assumption)
  qed
qed

lemma fst_split_at_hd:
  "fst (split_at c s) = [] \<or> (s \<noteq> [] \<and> hd (fst (split_at c s)) = hd s \<and> hd s \<noteq> c)"
  by (cases s) (auto simp add: split_at_def before_char_def)

lemma split_components:
  assumes sch: "sch \<in> set (map str [''http'', ''https'', ''ftp'', ''ftps''])"
    and sp: "urlsplit rt (sch @ str ''://'' @ r) = Inr (s', nl, u, q, f)"
  shows "s' = sch \<and> list_all (\<lambda>c. \<not> is_delim c) nl \<and> brackets_ok rt nl \<and> checknetloc rt nl \<and>
         (u = [] \<or> (\<exists>t. u = 47 # t)) \<and> 63 \<notin> set u \<and> 35 \<notin> set u \<and> 35 \<notin> set q \<and>
         list_all (\<lambda>c. c \<noteq> 9 \<and> c \<noteq> 13 \<and> c \<noteq> 10) (nl @ u @ q @ f)"
proof -
  define r' where "r' = filter (\<lambda>c. c \<noteq> 9 \<and> c \<noteq> 13 \<and> c \<noteq> 10) r"
  define url2 where "url2 = dropWhile (\<lambda>c. \<not> is_delim c) r'"
  define url3 where "url3 = fst (split_at 35 url2)"
  from sp have ok: "brackets_ok rt (takeWhile (\<lambda>c. \<not> is_delim c) r')"
      "checknetloc rt (takeWhile (\<lambda>c. \<not> is_delim c) r')"
    and c: "s' = sch" "nl = takeWhile (\<lambda>c. \<not> is_delim c) r'" "u = fst (split_at 63 url3)"
      "q = snd (split_at 63 url3)" "f = snd (split_at 35 url2)"
    unfolding split_prefixed [OF sch] r'_def url2_def url3_def
    by (simp_all add: Let_def split: if_splits)
  have safe: "\<forall>x\<in>set r'. x \<noteq> 9 \<and> x \<noteq> 13 \<and> x \<noteq> 10" by (simp add: r'_def)
  have s2: "set url2 \<subseteq> set r'" unfolding url2_def by (auto dest: set_dropWhileD)
  have s3: "set url3 \<subseteq> set url2" unfolding url3_def by (rule set_split_at)
  have su: "set u \<subseteq> set url3" and sq: "set q \<subseteq> set url3" unfolding c by (rule set_split_at)+
  have sf: "set f \<subseteq> set url2" unfolding c by (rule set_split_at)
  have sn: "set nl \<subseteq> set r'" unfolding c by (auto dest: set_takeWhileD)
  have n3: "35 \<notin> set url3" unfolding url3_def by (rule notin_fst_split_at)
  have nu: "63 \<notin> set u" unfolding c by (rule notin_fst_split_at)
  have d2: "url2 = [] \<or> is_delim (hd url2)"
    unfolding url2_def using hd_dropWhile [of "\<lambda>c. \<not> is_delim c" r'] by auto
  have hu: "u = [] \<or> (\<exists>t. u = 47 # t)"
  proof (cases "u = []")
    case True
    then show ?thesis by simp
  next
    case False
    with fst_split_at_hd [of 63 url3] have h3: "url3 \<noteq> []" "hd u = hd url3" "hd url3 \<noteq> 63"
      unfolding c by auto
    with fst_split_at_hd [of 35 url2] have h2: "url2 \<noteq> []" "hd url3 = hd url2" "hd url2 \<noteq> 35"
      unfolding url3_def by auto
    from d2 h2 h3 have "hd u = 47" by (auto simp add: is_delim_def)
    with False show ?thesis by (cases u) auto
  qed
  have "list_all (\<lambda>c. \<not> is_delim c) nl" unfolding c by (auto simp add: list_all_iff dest: set_takeWhileD)
  moreover have "set (nl @ u @ q @ f) \<subseteq> set r'"
    using s2 s3 su sq sf sn by auto
  then have "list_all (\<lambda>c. c \<noteq> 9 \<and> c \<noteq> 13 \<and> c \<noteq> 10) (nl @ u @ q @ f)"
    using safe unfolding list_all_iff by blast
  moreover have "35 \<notin> set u" "35 \<notin> set q" using n3 su sq by auto
  ultimately show ?thesis using ok c(1,2) hu nu by simp
qed

subsection \<open>Bare names\<close>

text \<open>A name of ASCII letters, digits and hyphens is completed to \<^verbatim>\<open>https://<name>/\<close>: the
  network location that \<^verbatim>\<open>urlparse\<close> finds after the prepended \<^verbatim>\<open>//\<close> is the name itself, so
  the branch for an empty network location, which would append \<^verbatim>\<open>.com\<close>, is not entered.\<close>

lemma split_char_none: "c \<notin> set s \<Longrightarrow> split_char c s = [s]"
  by (induction s) auto

lemma bare_name_completion:
  assumes ne: "s \<noteq> []"
    and an: "list_all (\<lambda>c. isascii_alpha c \<or> (48 \<le> c \<and> c \<le> 57) \<or> c = 45) s"
  shows "autocomplete_url rt s = Inr (str ''https://'' @ s @ str ''/'')"
proof -
  from an have cs: "\<forall>c\<in>set s. (isascii_alpha c \<or> (48 \<le> c \<and> c \<le> 57) \<or> c = 45)"
    by (simp add: list_all_iff)
  have nsp: "\<forall>c\<in>set s. \<not> isspace c" using cs by (auto simp add: isspace_def isascii_alpha_def)
  have "hd s \<in> set s" "last s \<in> set s" using ne by simp_all
  with nsp have "\<not> isspace (hd s)" "\<not> isspace (last s)" by blast+
  with ne have l: "dropWhile isspace s = s" and r: "dropWhile isspace (rev s) = rev s"
    by (simp_all add: dropWhile_eq_self_iff hd_rev)
  have st: "strip s = s" unfolding strip_def lstrip_def rstrip_def l r by simp
  have n47: "47 \<notin> set s" and n58: "58 \<notin> set s" and n46: "46 \<notin> set s"
    using cs by (auto simp add: isascii_alpha_def)
  have nopre: "\<not> list_ex (startswith s) [str ''http://'', str ''https://'', str ''ftp://'', str ''ftps://'']"
  proof
    assume "list_ex (startswith s) [str ''http://'', str ''https://'', str ''ftp://'', str ''ftps://'']"
    then obtain p where p: "startswith s p" "58 \<in> set p"
      by (auto simp add: str_def)
    then have "set p \<subseteq> set s" unfolding startswith_def by (metis set_take_subset)
    with p n58 show False by blast
  qed
  have safe: "filter (\<lambda>c. c \<noteq> 9 \<and> c \<noteq> 13 \<and> c \<noteq> 10) s = s"
    using cs by (intro filter_True) (auto simp add: isascii_alpha_def)
  have nd: "\<forall>c\<in>set s. \<not> is_delim c" using cs by (auto simp add: is_delim_def isascii_alpha_def)
  then have tw: "takeWhile (\<lambda>c. \<not> is_delim c) s = s" and dw: "dropWhile (\<lambda>c. \<not> is_delim c) s = []"
    by simp_all
  have "91 \<notin> set s" "93 \<notin> set s" using cs by (auto simp add: isascii_alpha_def)
  then have br: "brackets_ok rt s" by (simp add: brackets_ok_def)
  have ck: "checknetloc rt s"
    using cs ne by (auto simp add: checknetloc_def list_all_iff isascii_alpha_def)
  have sp: "urlsplit rt (str ''//'' @ s) = Inr ([], s, [], [], [])"
    using n58 by (simp add: urlsplit_def sanitize_def safe split_scheme_def splitnetloc_def tw dw br ck
        split_at_def str_def)
  have pa: "urlparse rt (str ''//'' @ s) =
      Inr \<lparr>scheme = [], netloc = s, path = [], params = [], query = [], fragment = []\<rparr>"
    by (simp add: urlparse_def sp)
  from pa have pa2: "urlparse rt (47 # 47 # s) =
      Inr \<lparr>scheme = [], netloc = s, path = [], params = [], query = [], fragment = []\<rparr>"
    by (simp add: str_def)
  show ?thesis
    using ne nopre
    by (simp add: autocomplete_url_def st pa2 split_char_none [OF n47] urlunparse_def urlunsplit_def
        startswith_def str_def)
qed

subsection \<open>Bare names (C1)\<close>

text \<open>
  C1. The claim: for the input \<^verbatim>\<open>"openai"\<close> the completed URL has the host \<^verbatim>\<open>openai.com\<close>.
  The code: \<^verbatim>\<open>urlparse("//openai")\<close> already gives the network location \<^verbatim>\<open>openai\<close>, so the
  branch that appends \<^verbatim>\<open>.com\<close> is not entered; the completed URL is \<^verbatim>\<open>https://openai/\<close> and its
  host is \<^verbatim>\<open>openai\<close>, on every runtime.
\<close>

theorem C1_openai_host:
  "autocomplete_url rt (str ''openai'') = Inr (str ''https://openai/'') \<and>
   urlparse rt (str ''https://openai/'') =
     Inr \<lparr>scheme = str ''https'', netloc = str ''openai'', path = str ''/'', params = [],
          query = [], fragment = []\<rparr>"
  by (simp add: isascii_alpha_def scheme_char_def lower_def autocomplete_url_def urlparse_def urlsplit_def sanitize_def split_scheme_def
      splitnetloc_def brackets_ok_def checknetloc_def split_at_def before_char_def after_char_def
      is_delim_def uses_params_def uses_netloc_def urlunparse_def urlunsplit_def strip_def
      lstrip_def rstrip_def isspace_def startswith_def str_def Let_def)

subsection \<open>Escaping exceptions (C2)\<close>

text \<open>
  C2. The claim: no exception leaves \<^verbatim>\<open>scrapeweb\<close>. The code: for the input \<^verbatim>\<open>"["\<close> the call
  \<^verbatim>\<open>urlparse("//[")\<close> in \<^verbatim>\<open>_autocomplete_url\<close> raises \<^verbatim>\<open>ValueError\<close> outside every \<^verbatim>\<open>try\<close>, and
  the exception leaves \<^verbatim>\<open>scrapeweb\<close> before any request, on every runtime and transport.
\<close>

theorem C2_exception_escapes:
  "outcome (scrapeweb rt http_get (str ''['')) = Inl ValueError \<and>
   requested (scrapeweb rt http_get (str ''['')) = []"
  by (simp add: scrapeweb_def autocomplete_url_def urlparse_def urlsplit_def sanitize_def split_scheme_def
      splitnetloc_def brackets_ok_def checknetloc_def split_at_def before_char_def after_char_def
      is_delim_def uses_params_def uses_netloc_def urlunparse_def urlunsplit_def strip_def
      lstrip_def rstrip_def isspace_def startswith_def str_def Let_def)

subsection \<open>Truncation (C3, C9)\<close>

text \<open>
  C3, as the code has it. For every successful fetch, with \<open>raw\<close> the linearised text of the
  page and \<open>strip (collapse_blank raw)\<close> the extracted text: \<^verbatim>\<open>full_content\<close> is the extracted
  text unchanged when it has at most 5000 characters, and otherwise its first 5000
  characters followed by a newline and \<^verbatim>\<open>... (content truncated)\<close>; in that case
  \<^verbatim>\<open>content_preview\<close> is the first 200 characters of the extracted text followed by \<^verbatim>\<open>...\<close>.
\<close>

theorem C3_truncation:
  assumes "outcome (scrapeweb rt http_get url) = Inr env" and "is_success env"
  shows "\<exists>cu raw. requested (scrapeweb rt http_get url) = [cu] \<and> http_get cu = Inr raw \<and>
           field env ''full_content'' =
             Some (if 5000 < length (strip (collapse_blank raw))
                   then take 5000 (strip (collapse_blank raw)) @ 10 # str ''... (content truncated)''
                   else strip (collapse_blank raw)) \<and>
           (5000 < length (strip (collapse_blank raw)) \<longrightarrow>
              field env ''content_preview'' = Some (take 200 (strip (collapse_blank raw)) @ str ''...''))"
proof -
  from scrapeweb_success_shape [OF assms] obtain cu raw where
    r: "requested (scrapeweb rt http_get url) = [cu]" and g: "http_get cu = Inr raw" and
    e: "env = [(''status'', str ''success''), (''original_url'', url), (''scraped_url'', cu),
               (''content_preview'', content_preview (truncate_content (strip (collapse_blank raw)))),
               (''full_content'', truncate_content (strip (collapse_blank raw)))]"
    by blast
  have f: "field env ''full_content'' = Some (truncate_content (strip (collapse_blank raw)))"
    by (simp add: e field_def)
  have p: "field env ''content_preview'' =
             Some (content_preview (truncate_content (strip (collapse_blank raw))))"
    by (simp add: e field_def)
  have "field env ''full_content'' =
          Some (if 5000 < length (strip (collapse_blank raw))
                then take 5000 (strip (collapse_blank raw)) @ 10 # str ''... (content truncated)''
                else strip (collapse_blank raw))"
    by (simp add: f truncate_content_def max_len_def)
  moreover have "5000 < length (strip (collapse_blank raw)) \<longrightarrow>
      field env ''content_preview'' = Some (take 200 (strip (collapse_blank raw)) @ str ''...'')"
    by (simp add: p preview_truncated max_len_def)
  ultimately show ?thesis using r g by blast
qed

text \<open>The theorem at a page of 5001 letters \<^verbatim>\<open>a\<close>, fetched for the input \<^verbatim>\<open>a.com\<close>.\<close>

theorem C3_truncation_witness:
  "field [(''status'', str ''success''), (''original_url'', str ''a.com''),
          (''scraped_url'', str ''https://a.com/''),
          (''content_preview'', replicate 200 97 @ str ''...''),
          (''full_content'', replicate 5000 97 @ 10 # str ''... (content truncated)'')]
         ''full_content''
     = Some (take 5000 (replicate 5001 97) @ 10 # str ''... (content truncated)'') \<and>
   field [(''status'', str ''success''), (''original_url'', str ''a.com''),
          (''scraped_url'', str ''https://a.com/''),
          (''content_preview'', replicate 200 97 @ str ''...''),
          (''full_content'', replicate 5000 97 @ 10 # str ''... (content truncated)'')]
         ''content_preview''
     = Some (take 200 (replicate 5001 97) @ str ''...'')"
proof -
  let ?env = "[(''status'', str ''success''), (''original_url'', str ''a.com''),
          (''scraped_url'', str ''https://a.com/''),
          (''content_preview'', replicate 200 97 @ str ''...''),
          (''full_content'', replicate 5000 97 @ 10 # str ''... (content truncated)'')]"
  have t: "truncate_content (replicate 5001 97) = replicate 5000 97 @ 10 # str ''... (content truncated)''"
    by (simp add: truncate_content_def max_len_def)
  have p: "content_preview (replicate 5000 97 @ 10 # str ''... (content truncated)'') =
             replicate 200 97 @ str ''...''"
    by (simp add: content_preview_def)
  have h1: "outcome (scrapeweb test_runtime (serve (replicate 5001 97)) (str ''a.com'')) = Inr ?env"
    by (simp only: scrape_a_com [of 5001, simplified] t p scrape_result.simps)
  have h2: "is_success ?env"
    by (simp add: is_success_def field_def)
  have e: "strip (collapse_blank (replicate 5001 97)) = replicate 5001 97"
    by (rule extract_replicate) (simp_all add: isspace_def)
  from C3_truncation [OF h1 h2] obtain cu raw where
    g: "serve (replicate 5001 97) cu = Inr raw" and
    f: "field ?env ''full_content'' =
             Some (if 5000 < length (strip (collapse_blank raw))
                   then take 5000 (strip (collapse_blank raw)) @ 10 # str ''... (content truncated)''
                   else strip (collapse_blank raw))" and
    v: "5000 < length (strip (collapse_blank raw)) \<longrightarrow>
              field ?env ''content_preview'' = Some (take 200 (strip (collapse_blank raw)) @ str ''...'')"
    by blast
  from g have raw: "raw = replicate 5001 97" by (simp add: serve_def)
  have len: "5000 < length (strip (collapse_blank raw))" by (simp add: raw e)
  from f len have "field ?env ''full_content'' =
      Some (take 5000 (strip (collapse_blank raw)) @ 10 # str ''... (content truncated)'')"
    by (simp only: if_True)
  moreover from v len have "field ?env ''content_preview'' =
      Some (take 200 (strip (collapse_blank raw)) @ str ''...'')"
    by blast
  ultimately show ?thesis by (simp only: raw e)
qed

text \<open>
  C3, as the claim states it, fails: for a page of 5001 letters \<^verbatim>\<open>a\<close> the extracted text is
  the page, and \<^verbatim>\<open>full_content\<close> has a newline between the first 5000 characters and
  \<^verbatim>\<open>... (content truncated)\<close>, so it is not the one followed immediately by the other.
\<close>

theorem C3_counterexample:
  "outcome (scrapeweb test_runtime (serve (replicate 5001 97)) (str ''a.com'')) =
     Inr [(''status'', str ''success''), (''original_url'', str ''a.com''),
          (''scraped_url'', str ''https://a.com/''),
          (''content_preview'', replicate 200 97 @ str ''...''),
          (''full_content'', replicate 5000 97 @ 10 # str ''... (content truncated)'')]
   \<and> strip (collapse_blank (replicate 5001 97)) = replicate 5001 97
   \<and> replicate 5000 97 @ 10 # str ''... (content truncated)''
       \<noteq> take 5000 (replicate 5001 97) @ str ''... (content truncated)''"
proof -
  have s: "scrapeweb test_runtime (serve (replicate 5001 97)) (str ''a.com'') =
     \<lparr>outcome = Inr [(''status'', str ''success''), (''original_url'', str ''a.com''),
                     (''scraped_url'', str ''https://a.com/''),
                     (''content_preview'', content_preview (truncate_content (replicate 5001 97))),
                     (''full_content'', truncate_content (replicate 5001 97))],
      requested = [str ''https://a.com/'']\<rparr>"
    by (rule scrape_a_com) simp
  have t: "truncate_content (replicate 5001 97) = replicate 5000 97 @ 10 # str ''... (content truncated)''"
    by (simp add: truncate_content_def max_len_def)
  have p: "content_preview (replicate 5000 97 @ 10 # str ''... (content truncated)'') =
             replicate 200 97 @ str ''...''"
    by (simp add: content_preview_def)
  have e: "strip (collapse_blank (replicate 5001 97)) = replicate 5001 97"
    by (rule extract_replicate) (simp_all add: isspace_def)
  have n: "replicate 5000 97 @ 10 # str ''... (content truncated)''
       \<noteq> take 5000 (replicate 5001 97) @ str ''... (content truncated)''"
    by (simp add: str_def)
  show ?thesis by (simp only: s t p e n scrape_result.simps simp_thms)
qed

text \<open>
  C9, as the code has it. In every success envelope \<^verbatim>\<open>full_content\<close> has at most 5024
  characters (5000 of text and the 24 of the marker with its newline) and
  \<^verbatim>\<open>content_preview\<close> at most 203.
\<close>

theorem C9_length_bounds:
  assumes "outcome (scrapeweb rt http_get url) = Inr env" and "is_success env"
  shows "\<exists>full preview. field env ''full_content'' = Some full \<and>
           field env ''content_preview'' = Some preview \<and>
           length full \<le> 5024 \<and> length preview \<le> 203"
proof -
  from scrapeweb_success_shape [OF assms] obtain cu raw where
    e: "env = [(''status'', str ''success''), (''original_url'', url), (''scraped_url'', cu),
               (''content_preview'', content_preview (truncate_content (strip (collapse_blank raw)))),
               (''full_content'', truncate_content (strip (collapse_blank raw)))]"
    by blast
  have "length (truncate_content t) \<le> 5024" for t
    by (simp add: truncate_content_def max_len_def str_def)
  moreover have "length (content_preview t) \<le> 203" for t
    by (simp add: content_preview_def str_def)
  ultimately show ?thesis by (simp add: e field_def)
qed

text \<open>The theorem at a page of five letters, fetched for the input \<^verbatim>\<open>a.com\<close>.\<close>

theorem C9_length_bounds_witness:
  "\<exists>full preview.
     field [(''status'', str ''success''), (''original_url'', str ''a.com''),
            (''scraped_url'', str ''https://a.com/''),
            (''content_preview'', replicate 5 97), (''full_content'', replicate 5 97)]
           ''full_content'' = Some full \<and>
     field [(''status'', str ''success''), (''original_url'', str ''a.com''),
            (''scraped_url'', str ''https://a.com/''),
            (''content_preview'', replicate 5 97), (''full_content'', replicate 5 97)]
           ''content_preview'' = Some preview \<and>
     length full \<le> 5024 \<and> length preview \<le> 203"
proof -
  let ?env = "[(''status'', str ''success''), (''original_url'', str ''a.com''),
            (''scraped_url'', str ''https://a.com/''),
            (''content_preview'', replicate 5 97), (''full_content'', replicate 5 97)]"
  have t: "truncate_content (replicate 5 97) = replicate 5 97"
    by (simp add: truncate_content_def max_len_def)
  have p: "content_preview (replicate 5 97) = replicate 5 97"
    by (simp add: content_preview_def)
  have h1: "outcome (scrapeweb test_runtime (serve (replicate 5 97)) (str ''a.com'')) = Inr ?env"
    by (simp only: scrape_a_com [of 5, simplified] t p scrape_result.simps)
  have h2: "is_success ?env"
    by (simp add: is_success_def field_def)
  from C9_length_bounds [OF h1 h2] show ?thesis .
qed

text \<open>
  C9, as the claim states it, fails: for a page of 6000 letters \<^verbatim>\<open>a\<close> the envelope is a
  success and its \<^verbatim>\<open>full_content\<close> has 5024 characters, more than the 5023 of the claim.
\<close>

theorem C9_counterexample:
  "result_field (scrapeweb test_runtime (serve (replicate 6000 97)) (str ''a.com'')) ''status''
     = Some (str ''success'') \<and>
   map_option length
     (result_field (scrapeweb test_runtime (serve (replicate 6000 97)) (str ''a.com'')) ''full_content'')
     = Some 5024"
proof -
  have s: "scrapeweb test_runtime (serve (replicate 6000 97)) (str ''a.com'') =
     \<lparr>outcome = Inr [(''status'', str ''success''), (''original_url'', str ''a.com''),
                     (''scraped_url'', str ''https://a.com/''),
                     (''content_preview'', content_preview (truncate_content (replicate 6000 97))),
                     (''full_content'', truncate_content (replicate 6000 97))],
      requested = [str ''https://a.com/'']\<rparr>"
    by (rule scrape_a_com) simp
  have l: "length (truncate_content (replicate 6000 97)) = 5024"
    by (simp add: truncate_content_def max_len_def str_def)
  show ?thesis unfolding s by (simp add: result_field_def field_def l)
qed

subsection \<open>Empty input (C8)\<close>

text \<open>
  C8. For every input that is empty or consists of whitespace only, \<^verbatim>\<open>scrapeweb\<close> returns the
  error envelope with the message \<^verbatim>\<open>URL cannot be empty.\<close>; the result does not depend on the
  runtime or the transport, and no request is issued.
\<close>

theorem C8_empty_input:
  "list_all isspace url \<Longrightarrow>
   scrapeweb rt http_get url =
     \<lparr>outcome = Inr [(''status'', str ''error''), (''message'', str ''URL cannot be empty.'')],
      requested = []\<rparr>"
  by (simp add: scrapeweb_def strip_empty_iff)

text \<open>The theorem at the input of a space, a tab and a newline.\<close>

theorem C8_empty_input_witness:
  "list_all isspace [32, 9, 10] \<and>
   scrapeweb test_runtime (serve (str ''page'')) [32, 9, 10] =
     \<lparr>outcome = Inr [(''status'', str ''error''), (''message'', str ''URL cannot be empty.'')],
      requested = []\<rparr>"
proof -
  have h: "list_all isspace [32, 9, 10]" by (simp add: isspace_def)
  from C8_empty_input [OF h] h show ?thesis by blast
qed

subsection \<open>Surrounding whitespace (C10)\<close>

text \<open>
  C10. \<^verbatim>\<open>_autocomplete_url\<close> gives the same result, value or exception, for an input and for
  the input with its surrounding whitespace removed, and \<^verbatim>\<open>scrapeweb\<close> issues the same
  requests for both.
\<close>

theorem C10_whitespace_invariant:
  "autocomplete_url rt (strip s) = autocomplete_url rt s \<and>
   requested (scrapeweb rt http_get (strip s)) = requested (scrapeweb rt http_get s)"
proof -
  have a: "autocomplete_url rt (strip s) = autocomplete_url rt s"
    by (simp add: autocomplete_url_def strip_idem)
  have "requested (scrapeweb rt http_get (strip s)) = requested (scrapeweb rt http_get s)"
    by (auto simp add: scrapeweb_def a strip_idem strip_def [of "[]"] lstrip_def rstrip_def Let_def
        split: sum.splits)
  with a show ?thesis by simp
qed

subsection \<open>Normalizing twice (C6)\<close>

text \<open>
  C6, as the code has it. For every input that, once stripped, starts with one of the four
  recognized schemes and parses to a non-empty network location, \<^verbatim>\<open>_autocomplete_url\<close> returns
  the re-serialized URL; when that URL does not end in whitespace, applying
  \<^verbatim>\<open>_autocomplete_url\<close> to it returns it unchanged.
\<close>

theorem C6_idempotent:
  assumes pre: "list_ex (startswith (strip s))
                  [str ''http://'', str ''https://'', str ''ftp://'', str ''ftps://'']"
    and parse: "urlparse rt (strip s) = Inr parsed"
    and nz: "netloc parsed \<noteq> []"
    and nows: "\<not> isspace (last (urlunparse parsed))"
  shows "autocomplete_url rt s = Inr (urlunparse parsed) \<and>
         autocomplete_url rt (urlunparse parsed) = Inr (urlunparse parsed)"
proof -
  from scheme_prefix_cases [OF pre] obtain sch r where
    sch: "sch \<in> set (map str [''http'', ''https'', ''ftp'', ''ftps''])" and x: "strip s = sch @ str ''://'' @ r"
    by blast
  from sch have sne: "sch \<noteq> []" and hsch: "\<not> isspace (hd sch)"
    by (auto simp add: str_def isspace_def)
  from x sne have xne: "strip s \<noteq> []" by simp
  have first: "autocomplete_url rt s = Inr (urlunparse parsed)"
    using pre parse nz xne by (simp add: autocomplete_url_def)
  from parse obtain s' nl u q f where
    sp: "urlsplit rt (strip s) = Inr (s', nl, u, q, f)"
    by (auto simp add: urlparse_def split: sum.splits)
  define p where "p = path parsed"
  define m where "m = params parsed"
  from parse sp have pm: "(if s' \<in> set uses_params \<and> 59 \<in> set u then splitparams u else (u, [])) = (p, m)"
    and parsed: "parsed = \<lparr>scheme = s', netloc = nl, path = p, params = m, query = q, fragment = f\<rparr>"
    by (auto simp add: urlparse_def p_def m_def Let_def split: prod.splits if_splits)
  from split_components [OF sch sp [unfolded x]] have
    c: "s' = sch" "list_all (\<lambda>c. \<not> is_delim c) nl" "brackets_ok rt nl" "checknetloc rt nl"
      "u = [] \<or> (\<exists>t. u = 47 # t)" "63 \<notin> set u" "35 \<notin> set u" "35 \<notin> set q"
      "list_all (\<lambda>c. c \<noteq> 9 \<and> c \<noteq> 13 \<and> c \<noteq> 10) (nl @ u @ q @ f)"
    by simp_all
  define u' where "u' = (if m \<noteq> [] then p @ 59 # m else p)"
  from params_roundtrip [OF pm] obtain w where
    again: "(if s' \<in> set uses_params \<and> 59 \<in> set u' then splitparams u' else (u', [])) = (p, m)"
    and uw: "u = u' @ w"
    unfolding u'_def by blast
  have y: "urlunparse parsed = urlunsplit (sch, nl, u', q, f)"
    by (simp add: urlunparse_def parsed u'_def c(1) str_def)
  from nz have nlne: "nl \<noteq> []" by (simp add: parsed)
  have u'1: "u' = [] \<or> (\<exists>t. u' = 47 # t)" using c(5) uw by (cases u') auto
  have u'2: "63 \<notin> set u'" "35 \<notin> set u'" using c(6,7) uw by auto
  have u'3: "list_all (\<lambda>c. c \<noteq> 9 \<and> c \<noteq> 13 \<and> c \<noteq> 10) (nl @ u' @ q @ f)"
    using c(9) uw by (auto simp add: list_all_iff)
  have sp2: "urlsplit rt (urlunparse parsed) = Inr (sch, nl, u', q, f)"
    unfolding y using sch nlne c(2,3,4) u'1 u'2 c(8) u'3 by (rule unsplit_split)
  have parse2: "urlparse rt (urlunparse parsed) = Inr parsed"
    unfolding urlparse_def sp2 using again by (simp add: parsed c(1))
  have shape: "urlunparse parsed = sch @ str ''://'' @ (nl @ u' @ (if q \<noteq> [] then 63 # q else [])
                  @ (if f \<noteq> [] then 35 # f else []))"
    unfolding y using nlne u'1 sne by (auto simp add: urlunsplit_def str_def)
  have yne: "urlunparse parsed \<noteq> []" and hy: "\<not> isspace (hd (urlunparse parsed))"
    unfolding shape using sne hsch by simp_all
  have st: "strip (urlunparse parsed) = urlunparse parsed"
    using yne hy nows by (rule strip_id)
  have pre2: "list_ex (startswith (urlunparse parsed))
                  [str ''http://'', str ''https://'', str ''ftp://'', str ''ftps://'']"
    unfolding shape using sch by (auto simp add: startswith_def str_def)
  have "autocomplete_url rt (urlunparse parsed) = Inr (urlunparse parsed)"
    using pre2 parse2 nz yne by (simp add: autocomplete_url_def st)
  with first show ?thesis by simp
qed

text \<open>The theorem at the input \<^verbatim>\<open>http://example.com/path?q=1#\<close> with two spaces on each side:
  the empty fragment and the spaces go, and the result is a fixed point.\<close>

theorem C6_idempotent_witness:
  "autocomplete_url test_runtime (str ''  http://example.com/path?q=1#  '')
     = Inr (str ''http://example.com/path?q=1'') \<and>
   autocomplete_url test_runtime (str ''http://example.com/path?q=1'')
     = Inr (str ''http://example.com/path?q=1'')"
proof -
  let ?x = "str ''  http://example.com/path?q=1#  ''"
  let ?p = "\<lparr>scheme = str ''http'', netloc = str ''example.com'', path = str ''/path'', params = [],
             query = str ''q=1'', fragment = []\<rparr>"
  have h1: "list_ex (startswith (strip ?x))
                  [str ''http://'', str ''https://'', str ''ftp://'', str ''ftps://'']"
    by (simp add: strip_def lstrip_def rstrip_def isspace_def startswith_def str_def)
  have h2: "urlparse test_runtime (strip ?x) = Inr ?p"
    by (simp add: isascii_alpha_def scheme_char_def lower_def autocomplete_url_def urlparse_def
      urlsplit_def sanitize_def split_scheme_def splitnetloc_def brackets_ok_def checknetloc_def
      split_at_def before_char_def after_char_def is_delim_def uses_params_def uses_netloc_def
      urlunparse_def urlunsplit_def strip_def lstrip_def rstrip_def isspace_def startswith_def
      str_def Let_def)
  have h3: "netloc ?p \<noteq> []" by (simp add: str_def)
  have u: "urlunparse ?p = str ''http://example.com/path?q=1''"
    by (simp add: urlunparse_def urlunsplit_def str_def)
  have h4: "\<not> isspace (last (urlunparse ?p))"
    unfolding u by (simp add: isspace_def str_def)
  from C6_idempotent [OF h1 h2 h3 h4] show ?thesis unfolding u .
qed

text \<open>
  C6, as the claim states it, fails: the input \<^verbatim>\<open>http://a.com/b #\<close> starts with a recognized
  scheme and parses to the network location \<^verbatim>\<open>a.com\<close>; its normal form drops the empty
  fragment and ends in a space, and normalizing that again strips the space.
\<close>

theorem C6_counterexample:
  "list_ex (startswith (strip (str ''http://a.com/b #'')))
     [str ''http://'', str ''https://'', str ''ftp://'', str ''ftps://''] \<and>
   urlparse test_runtime (strip (str ''http://a.com/b #''))
     = Inr \<lparr>scheme = str ''http'', netloc = str ''a.com'', path = str ''/b '', params = [],
            query = [], fragment = []\<rparr> \<and>
   autocomplete_url test_runtime (str ''http://a.com/b #'') = Inr (str ''http://a.com/b '') \<and>
   autocomplete_url test_runtime (str ''http://a.com/b '') = Inr (str ''http://a.com/b'') \<and>
   str ''http://a.com/b '' \<noteq> str ''http://a.com/b''"
  by (simp add: isascii_alpha_def scheme_char_def lower_def autocomplete_url_def urlparse_def
      urlsplit_def sanitize_def split_scheme_def splitnetloc_def brackets_ok_def checknetloc_def
      split_at_def before_char_def after_char_def is_delim_def uses_params_def uses_netloc_def
      urlunparse_def urlunsplit_def strip_def lstrip_def rstrip_def isspace_def startswith_def
      str_def Let_def)

section \<open>Properties of the news query tool\<close>

subsection \<open>Digits and the page-size validator\<close>

lemma decimal_value_ascii:
  "c < 128 \<Longrightarrow> decimal_value c = (if 48 \<le> c \<and> c \<le> 57 then Some (c - 48) else None)"
  by (simp add: decimal_value_def decimal_zeros_def)

lemma isdigit_char_ascii: "c < 128 \<Longrightarrow> isdigit_char c \<longleftrightarrow> 48 \<le> c \<and> c \<le> 57"
  by (simp add: isdigit_char_def decimal_value_ascii other_digits_def)

lemma decimal_isdigit: "decimal_value c = Some d \<Longrightarrow> isdigit_char c"
  by (simp add: isdigit_char_def)

lemma digits_value_all: "digits_value s acc = Some v \<Longrightarrow> list_all isdigit_char s"
  by (induction s arbitrary: acc) (auto simp add: decimal_isdigit split: option.splits)

lemma digits_value_ascii:
  "list_all (\<lambda>c. c < 128) s \<Longrightarrow> list_all isdigit_char s \<Longrightarrow> \<exists>v. digits_value s acc = Some v"
  by (induction s arbitrary: acc)
    (auto simp add: decimal_value_ascii isdigit_char_ascii split: option.splits)

lemma validate_True_iff:
  "page_size_validate rt s = Inr True \<longleftrightarrow>
     s \<noteq> [] \<and> \<not> exceeds_digit_limit rt s \<and>
     (\<exists>v. digits_value s 0 = Some v \<and> 1 \<le> v \<and> v \<le> 100)"
  by (auto simp add: page_size_validate_def py_int_def isdigit_def digits_value_all
      split: option.splits sum.splits if_splits)

lemma validate_ascii:
  assumes "list_all (\<lambda>c. c < 128) s" and "\<not> exceeds_digit_limit rt s"
    and "page_size_validate rt s \<noteq> Inr True"
  shows "page_size_validate rt s = Inr False"
proof (cases "isdigit s")
  case False
  then show ?thesis by (simp add: page_size_validate_def)
next
  case True
  then have "list_all isdigit_char s" by (simp add: isdigit_def)
  with assms(1) obtain v where "digits_value s 0 = Some v"
    using digits_value_ascii by blast
  with True assms(2,3) show ?thesis
    by (simp add: page_size_validate_def py_int_def)
qed

lemma validate_raise_iff:
  "page_size_validate rt s = Inl ValueError \<longleftrightarrow>
     isdigit s \<and> (digits_value s 0 = None \<or> exceeds_digit_limit rt s)"
  by (auto simp add: page_size_validate_def py_int_def split: option.splits)

lemma validate_isl: "isl (page_size_validate rt s) \<longleftrightarrow> page_size_validate rt s = Inl ValueError"
  by (auto simp add: page_size_validate_def py_int_def split: option.splits)

lemma validate_False_iff:
  "page_size_validate rt s = Inr False \<longleftrightarrow>
     \<not> isdigit s \<or>
     (\<not> exceeds_digit_limit rt s \<and> (\<exists>v. digits_value s 0 = Some v \<and> (v < 1 \<or> 100 < v)))"
proof (cases "isdigit s")
  case False
  then show ?thesis by (simp add: page_size_validate_def)
next
  case True
  then show ?thesis
    by (cases "digits_value s 0") (auto simp add: page_size_validate_def py_int_def)
qed

lemma validate_ascii_no_raise:
  assumes "list_all (\<lambda>c. c < 128) s" and "\<not> exceeds_digit_limit rt s"
  shows "page_size_validate rt s \<noteq> Inl ValueError"
proof
  assume "page_size_validate rt s = Inl ValueError"
  then have d: "isdigit s" and n: "digits_value s 0 = None"
    using assms(2) by (simp_all add: validate_raise_iff)
  from d have "list_all isdigit_char s" by (simp add: isdigit_def)
  with assms(1) obtain v where "digits_value s 0 = Some v"
    using digits_value_ascii by blast
  with n show False by simp
qed

subsection \<open>The prompt with a validator\<close>

lemma prompt_validated_Some:
  "prompt_validated stay v es = Some (Inr e) \<Longrightarrow>
     \<exists>pre post. es = pre @ e # post \<and>
       list_all (\<lambda>x. v x = Inr False \<or> (stay \<and> isl (v x))) pre \<and> v e = Inr True"
proof (induction es)
  case Nil
  then show ?case by simp
next
  case (Cons x xs)
  have step: "\<exists>pre post. x # xs = pre @ e # post \<and>
       list_all (\<lambda>x. v x = Inr False \<or> (stay \<and> isl (v x))) pre \<and> v e = Inr True"
    if skip: "v x = Inr False \<or> (stay \<and> isl (v x))"
      and rest: "prompt_validated stay v xs = Some (Inr e)"
  proof -
    from Cons.IH [OF rest] obtain pre post where
      "xs = pre @ e # post" "list_all (\<lambda>x. v x = Inr False \<or> (stay \<and> isl (v x))) pre"
      "v e = Inr True" by blast
    with skip have "x # xs = (x # pre) @ e # post \<and>
        list_all (\<lambda>x. v x = Inr False \<or> (stay \<and> isl (v x))) (x # pre) \<and> v e = Inr True"
      by simp
    then show ?thesis by blast
  qed
  show ?case
  proof (cases "v x")
    case (Inl err)
    with Cons.prems have s: "stay" and r: "prompt_validated stay v xs = Some (Inr e)"
      by (simp_all split: if_splits)
    from Inl s have "v x = Inr False \<or> (stay \<and> isl (v x))" by simp
    then show ?thesis using r by (rule step)
  next
    case (Inr ok)
    show ?thesis
    proof (cases ok)
      case True
      with Inr Cons.prems have "x = e" by simp
      with Inr True have "x # xs = [] @ e # xs \<and>
          list_all (\<lambda>x. v x = Inr False \<or> (stay \<and> isl (v x))) [] \<and> v e = Inr True"
        by simp
      then show ?thesis by blast
    next
      case False
      with Inr Cons.prems have r: "prompt_validated stay v xs = Some (Inr e)" by simp
      from Inr False have "v x = Inr False \<or> (stay \<and> isl (v x))" by simp
      then show ?thesis using r by (rule step)
    qed
  qed
qed

lemma page_size_not_endpoint_param: "map_of (endpoint_params a) ''pageSize'' = None"
  by (simp add: endpoint_params_def split: endpoint.splits)

lemma collect_params_page_size:
  assumes "collect_params rt a = Some (Inr ps)"
  shows "\<exists>pre e post v. page_size_entries a = pre @ e # post \<and>
           list_all (\<lambda>x. page_size_validate rt x = Inr False \<or>
                        (prompt_stays_open rt \<and> page_size_validate rt x = Inl ValueError)) pre \<and>
           page_size_validate rt e = Inr True \<and>
           digits_value e 0 = Some v \<and> 1 \<le> v \<and> v \<le> 100 \<and>
           ps = endpoint_params a @ [(''pageSize'', PInt (int v))]"
proof -
  from assms obtain e where
    p: "prompt_validated (prompt_stays_open rt) (page_size_validate rt) (page_size_entries a)
          = Some (Inr e)"
    by (auto simp add: collect_params_def split: option.splits sum.splits)
  from prompt_validated_Some [OF p] obtain pre post where
    es: "page_size_entries a = pre @ e # post" and
    rej: "list_all (\<lambda>x. page_size_validate rt x = Inr False \<or>
                        (prompt_stays_open rt \<and> isl (page_size_validate rt x))) pre" and
    acc: "page_size_validate rt e = Inr True" by blast
  from rej have rej': "list_all (\<lambda>x. page_size_validate rt x = Inr False \<or>
                        (prompt_stays_open rt \<and> page_size_validate rt x = Inl ValueError)) pre"
    by (simp add: validate_isl)
  from acc obtain v where
    v: "digits_value e 0 = Some v" "1 \<le> v" "v \<le> 100" and lim: "\<not> exceeds_digit_limit rt e"
    by (auto simp add: validate_True_iff)
  from v lim have "py_int rt e = Inr (int v)" by (simp add: py_int_def)
  with assms p have "ps = endpoint_params a @ [(''pageSize'', PInt (int v))]"
    by (simp add: collect_params_def)
  with es rej' acc v show ?thesis by blast
qed

text \<open>The run of the sample user: keywords \<open>kw\<close>, date \<open>fd\<close>, and the entries \<^verbatim>\<open>0\<close> (rejected) and
  \<^verbatim>\<open>42\<close> (accepted) at the page-size prompt.\<close>

lemma validate_0: "page_size_validate rt (str ''0'') = Inr False"
  by (simp add: page_size_validate_def isdigit_def isdigit_char_ascii py_int_def
      exceeds_digit_limit_def str_def decimal_value_ascii)

lemma validate_42: "page_size_validate rt (str ''42'') = Inr True"
  by (simp add: page_size_validate_def isdigit_def isdigit_char_ascii py_int_def
      exceeds_digit_limit_def str_def decimal_value_ascii)

lemma validate_178: "page_size_validate rt [178] = Inl ValueError"
  by (simp add: page_size_validate_def isdigit_def isdigit_char_def other_digits_def py_int_def
      decimal_value_def decimal_zeros_def)

lemma int_42: "py_int rt (str ''42'') = Inr 42"
  by (simp add: py_int_def exceeds_digit_limit_def str_def decimal_value_ascii)

lemma collect_everything:
  "collect_params rt (everything_query kw fd [str ''0'', str ''42'']) =
     Some (Inr ([(''apiKey'', PStr (str ''key'')), (''q'', PStr kw)] @
                (if fd \<noteq> [] then [(''from'', PStr fd)] else []) @ [(''pageSize'', PInt 42)]))"
  by (simp add: collect_params_def validate_0 validate_42 int_42 endpoint_params_def
      everything_query_def)

text \<open>An entry on which the validator raises: under a prompt layer that stays open the next
  entry is taken, otherwise the exception leaves the function before any request.\<close>

lemma collect_after_raise:
  "collect_params rt (everything_query kw [] [[178], str ''42'']) =
     (if prompt_stays_open rt
      then Some (Inr [(''apiKey'', PStr (str ''key'')), (''q'', PStr kw), (''pageSize'', PInt 42)])
      else Some (Inl ValueError))"
  by (simp add: collect_params_def validate_178 validate_42 int_42 endpoint_params_def
      everything_query_def)

subsection \<open>The page-size prompt (C4)\<close>

text \<open>
  C4, as the code has it. Every string is accepted, rejected, or makes the validator raise
  \<^verbatim>\<open>ValueError\<close>:
  \<^item> it is accepted exactly when it is a non-empty string of Unicode decimal digits
    (\<open>digits_value s 0 = Some v\<close>: ASCII digits or the decimal digits of another script, which
    \<^verbatim>\<open>int\<close> reads too), within the interpreter's digit limit, whose base-10 value \<open>v\<close> lies
    between 1 and 100;
  \<^item> the validator raises exactly when the string consists of digit characters and either one
    of them is not a decimal digit or the string exceeds the digit limit;
  \<^item> it is rejected exactly in the remaining cases: it is not a string of digit characters
    (empty, signed, non-numeric), or it is a string of decimal digits within the limit whose
    value is out of range, be the digits ASCII or not;
  \<^item> on an ASCII string within the digit limit the validator never raises, so such a string
    is rejected when it is not accepted.

  When the parameters are collected, every entry before the accepted one was rejected, or
  made the validator raise under a prompt layer that stays open then, and \<^verbatim>\<open>pageSize\<close> is the
  value of the accepted entry itself, between 1 and 100.
\<close>

theorem C4_page_size:
  "(page_size_validate rt s = Inr True \<longleftrightarrow>
      s \<noteq> [] \<and> \<not> exceeds_digit_limit rt s \<and>
      (\<exists>v. digits_value s 0 = Some v \<and> 1 \<le> v \<and> v \<le> 100)) \<and>
   (page_size_validate rt s = Inl ValueError \<longleftrightarrow>
      isdigit s \<and> (digits_value s 0 = None \<or> exceeds_digit_limit rt s)) \<and>
   (page_size_validate rt s = Inr False \<longleftrightarrow>
      \<not> isdigit s \<or>
      (\<not> exceeds_digit_limit rt s \<and> (\<exists>v. digits_value s 0 = Some v \<and> (v < 1 \<or> 100 < v)))) \<and>
   (page_size_validate rt s = Inr True \<or> page_size_validate rt s = Inr False \<or>
      page_size_validate rt s = Inl ValueError) \<and>
   (list_all (\<lambda>c. c < 128) s \<and> \<not> exceeds_digit_limit rt s \<and> page_size_validate rt s \<noteq> Inr True
      \<longrightarrow> page_size_validate rt s = Inr False) \<and>
   (collect_params rt a = Some (Inr ps) \<longrightarrow>
      (\<exists>pre e post v. page_size_entries a = pre @ e # post \<and>
         list_all (\<lambda>x. page_size_validate rt x = Inr False \<or>
                      (prompt_stays_open rt \<and> page_size_validate rt x = Inl ValueError)) pre \<and>
         page_size_validate rt e = Inr True \<and>
         digits_value e 0 = Some v \<and> 1 \<le> v \<and> v \<le> 100 \<and>
         map_of ps ''pageSize'' = Some (PInt (int v))))"
proof (intro conjI impI)
  show "page_size_validate rt s = Inr True \<longleftrightarrow>
      s \<noteq> [] \<and> \<not> exceeds_digit_limit rt s \<and>
      (\<exists>v. digits_value s 0 = Some v \<and> 1 \<le> v \<and> v \<le> 100)"
    by (rule validate_True_iff)
next
  show "page_size_validate rt s = Inl ValueError \<longleftrightarrow>
      isdigit s \<and> (digits_value s 0 = None \<or> exceeds_digit_limit rt s)"
    by (rule validate_raise_iff)
next
  show "page_size_validate rt s = Inr False \<longleftrightarrow>
      \<not> isdigit s \<or>
      (\<not> exceeds_digit_limit rt s \<and> (\<exists>v. digits_value s 0 = Some v \<and> (v < 1 \<or> 100 < v)))"
    by (rule validate_False_iff)
next
  show "page_size_validate rt s = Inr True \<or> page_size_validate rt s = Inr False \<or>
      page_size_validate rt s = Inl ValueError"
  proof (cases "page_size_validate rt s")
    case (Inl e)
    then have "isl (page_size_validate rt s)" by simp
    then show ?thesis by (simp add: validate_isl)
  next
    case (Inr ok)
    then show ?thesis by (cases ok) simp_all
  qed
next
  assume h: "list_all (\<lambda>c. c < 128) s \<and> \<not> exceeds_digit_limit rt s \<and>
      page_size_validate rt s \<noteq> Inr True"
  then have "page_size_validate rt s \<noteq> Inl ValueError"
    using validate_ascii_no_raise by blast
  with h show "page_size_validate rt s = Inr False"
    using validate_ascii by blast
next
  assume "collect_params rt a = Some (Inr ps)"
  from collect_params_page_size [OF this] obtain pre e post v where
    f: "page_size_entries a = pre @ e # post"
      "list_all (\<lambda>x. page_size_validate rt x = Inr False \<or>
                   (prompt_stays_open rt \<and> page_size_validate rt x = Inl ValueError)) pre"
      "page_size_validate rt e = Inr True"
      "digits_value e 0 = Some v" "1 \<le> v" "v \<le> 100" and
    ps: "ps = endpoint_params a @ [(''pageSize'', PInt (int v))]"
    by blast
  have "map_of ps ''pageSize'' = Some (PInt (int v))"
    by (simp add: ps map_add_def page_size_not_endpoint_param)
  with f show "\<exists>pre e post v. page_size_entries a = pre @ e # post \<and>
         list_all (\<lambda>x. page_size_validate rt x = Inr False \<or>
                      (prompt_stays_open rt \<and> page_size_validate rt x = Inl ValueError)) pre \<and>
         page_size_validate rt e = Inr True \<and>
         digits_value e 0 = Some v \<and> 1 \<le> v \<and> v \<le> 100 \<and>
         map_of ps ''pageSize'' = Some (PInt (int v))"
    by blast
qed

text \<open>The theorem at three strings and one user. The three-character string of U+0665
  (the value 555) is rejected though it is not ASCII; U+00B2 (SUPERSCRIPT TWO) makes the
  validator raise; \<^verbatim>\<open>0\<close> is rejected; and for the user who enters \<^verbatim>\<open>0\<close> and then \<^verbatim>\<open>42\<close> the
  collected \<^verbatim>\<open>pageSize\<close> is the value of an accepted entry.\<close>

theorem C4_page_size_witness:
  "page_size_validate test_runtime [1637, 1637, 1637] = Inr False \<and>
   page_size_validate test_runtime [178] = Inl ValueError \<and>
   page_size_validate test_runtime (str ''0'') = Inr False \<and>
   (\<exists>pre e post v.
      page_size_entries (everything_query (str ''bitcoin'') [] [str ''0'', str ''42''])
        = pre @ e # post \<and>
      list_all (\<lambda>x. page_size_validate test_runtime x = Inr False \<or>
                   (prompt_stays_open test_runtime \<and>
                    page_size_validate test_runtime x = Inl ValueError)) pre \<and>
      page_size_validate test_runtime e = Inr True \<and>
      digits_value e 0 = Some v \<and> 1 \<le> v \<and> v \<le> 100 \<and>
      map_of [(''apiKey'', PStr (str ''key'')), (''q'', PStr (str ''bitcoin'')), (''pageSize'', PInt 42)]
        ''pageSize'' = Some (PInt (int v)))"
proof -
  let ?a = "everything_query (str ''bitcoin'') [] [str ''0'', str ''42'']"
  let ?ps = "[(''apiKey'', PStr (str ''key'')), (''q'', PStr (str ''bitcoin'')), (''pageSize'', PInt 42)]"
  have d: "digits_value [1637, 1637, 1637] 0 = Some 555"
    by (simp add: decimal_value_def decimal_zeros_def)
  have l: "\<not> exceeds_digit_limit test_runtime [1637, 1637, 1637]"
    by (simp add: exceeds_digit_limit_def)
  from d l have g1: "\<not> isdigit [1637, 1637, 1637] \<or>
      (\<not> exceeds_digit_limit test_runtime [1637, 1637, 1637] \<and>
       (\<exists>v. digits_value [1637, 1637, 1637] 0 = Some v \<and> (v < 1 \<or> 100 < v)))"
    by simp
  have "isdigit [178]"
    by (simp add: isdigit_def isdigit_char_def other_digits_def)
  moreover have "digits_value [178] 0 = None"
    by (simp add: decimal_value_def decimal_zeros_def)
  ultimately have g2: "isdigit [178] \<and> (digits_value [178] 0 = None \<or>
      exceeds_digit_limit test_runtime [178])"
    by simp
  have "list_all (\<lambda>c. c < 128) (str ''0'')" by (simp add: str_def)
  moreover have "\<not> exceeds_digit_limit test_runtime (str ''0'')"
    by (simp add: exceeds_digit_limit_def str_def)
  moreover have "page_size_validate test_runtime (str ''0'') \<noteq> Inr True"
    by (simp add: validate_0)
  ultimately have g3: "list_all (\<lambda>c. c < 128) (str ''0'') \<and>
      \<not> exceeds_digit_limit test_runtime (str ''0'') \<and>
      page_size_validate test_runtime (str ''0'') \<noteq> Inr True"
    by blast
  have g4: "collect_params test_runtime ?a = Some (Inr ?ps)"
    by (simp add: collect_everything)
  from C4_page_size [of test_runtime "[1637, 1637, 1637]" ?a ?ps] g1
  have r1: "page_size_validate test_runtime [1637, 1637, 1637] = Inr False" by blast
  from C4_page_size [of test_runtime "[178]" ?a ?ps] g2
  have r2: "page_size_validate test_runtime [178] = Inl ValueError" by blast
  from C4_page_size [of test_runtime "str ''0''" ?a ?ps] g3 g4
  have r3: "page_size_validate test_runtime (str ''0'') = Inr False"
    and r4: "\<exists>pre e post v. page_size_entries ?a = pre @ e # post \<and>
      list_all (\<lambda>x. page_size_validate test_runtime x = Inr False \<or>
                   (prompt_stays_open test_runtime \<and>
                    page_size_validate test_runtime x = Inl ValueError)) pre \<and>
      page_size_validate test_runtime e = Inr True \<and>
      digits_value e 0 = Some v \<and> 1 \<le> v \<and> v \<le> 100 \<and>
      map_of ?ps ''pageSize'' = Some (PInt (int v))"
    by blast+
  from r1 r2 r3 r4 show ?thesis by blast
qed

text \<open>
  C4, as the claim states it, fails: the one-character string U+0665 (ARABIC-INDIC DIGIT
  FIVE) contains a non-ASCII digit character and is accepted, with the value 5.
\<close>

theorem C4_counterexample:
  "page_size_validate test_runtime [1637] = Inr True \<and> \<not> list_all (\<lambda>c. c < 128) [1637::nat] \<and>
   py_int test_runtime [1637] = Inr 5"
  by (simp add: page_size_validate_def isdigit_def isdigit_char_def py_int_def
      exceeds_digit_limit_def decimal_value_def decimal_zeros_def)

subsection \<open>The parameters of the endpoint everything (C5)\<close>

text \<open>
  C5, as the code has it. When the endpoint is \<^verbatim>\<open>everything\<close> and the parameters are
  collected, the one request is issued with them; the parameter \<^verbatim>\<open>q\<close> is the keyword string
  as entered, whatever it is; the parameter \<^verbatim>\<open>from\<close> is absent when the date was left blank
  and is the entered date otherwise.
\<close>

theorem C5_everything_params:
  assumes "endpoint_choice a = Everything" and "collect_params rt a = Some (Inr ps)"
  shows "api_calls (fetch_and_display_news rt api_get a) = [(base_url Everything, ps)] \<and>
         map_of ps ''q'' = Some (PStr (search_keywords a)) \<and>
         (from_date a = [] \<longrightarrow> ''from'' \<notin> fst ` set ps) \<and>
         (from_date a \<noteq> [] \<longrightarrow> map_of ps ''from'' = Some (PStr (from_date a)))"
proof -
  from collect_params_page_size [OF assms(2)] obtain v where
    ps: "ps = endpoint_params a @ [(''pageSize'', PInt (int v))]" by blast
  have "api_calls (fetch_and_display_news rt api_get a) = [(base_url Everything, ps)]"
    using assms
    by (simp add: fetch_and_display_news_def Let_def split: sum.splits json.splits)
  moreover have "map_of ps ''q'' = Some (PStr (search_keywords a))"
    using assms(1) by (simp add: ps endpoint_params_def)
  moreover have "from_date a = [] \<longrightarrow> ''from'' \<notin> fst ` set ps"
    using assms(1) by (simp add: ps endpoint_params_def)
  moreover have "from_date a \<noteq> [] \<longrightarrow> map_of ps ''from'' = Some (PStr (from_date a))"
    using assms(1) by (simp add: ps endpoint_params_def)
  ultimately show ?thesis by blast
qed

text \<open>The theorem at the user who enters the keywords \<^verbatim>\<open>bitcoin\<close> and leaves the date blank.\<close>

theorem C5_everything_params_witness:
  "api_calls (fetch_and_display_news test_runtime (respond JNull)
       (everything_query (str ''bitcoin'') [] [str ''0'', str ''42'']))
     = [(base_url Everything,
         [(''apiKey'', PStr (str ''key'')), (''q'', PStr (str ''bitcoin'')), (''pageSize'', PInt 42)])] \<and>
   map_of [(''apiKey'', PStr (str ''key'')), (''q'', PStr (str ''bitcoin'')), (''pageSize'', PInt 42)] ''q''
     = Some (PStr (str ''bitcoin'')) \<and>
   ''from'' \<notin> fst ` set [(''apiKey'', PStr (str ''key'')), (''q'', PStr (str ''bitcoin'')),
                            (''pageSize'', PInt 42)]"
proof -
  let ?a = "everything_query (str ''bitcoin'') [] [str ''0'', str ''42'']"
  let ?ps = "[(''apiKey'', PStr (str ''key'')), (''q'', PStr (str ''bitcoin'')), (''pageSize'', PInt 42)]"
  have h1: "endpoint_choice ?a = Everything" by (simp add: everything_query_def)
  have h2: "collect_params test_runtime ?a = Some (Inr ?ps)" by (simp add: collect_everything)
  have k: "search_keywords ?a = str ''bitcoin''" and d: "from_date ?a = []"
    by (simp_all add: everything_query_def)
  from C5_everything_params [OF h1 h2, of "respond JNull"] k d show ?thesis by simp
qed

text \<open>
  C5, as the claim states it, fails: for a user who enters no keyword at all, the prompt
  returns the empty string, and the request is issued with \<^verbatim>\<open>q\<close> empty.
\<close>

theorem C5_counterexample:
  "search_keywords (everything_query [] [] [str ''0'', str ''42'']) = [] \<and>
   api_calls (fetch_and_display_news test_runtime (respond JNull)
       (everything_query [] [] [str ''0'', str ''42'']))
     = [(str ''https://newsapi.org/v2/everything'',
         [(''apiKey'', PStr (str ''key'')), (''q'', PStr []), (''pageSize'', PInt 42)])]"
proof -
  let ?a = "everything_query [] [] [str ''0'', str ''42'']"
  have c: "collect_params test_runtime ?a =
      Some (Inr [(''apiKey'', PStr (str ''key'')), (''q'', PStr []), (''pageSize'', PInt 42)])"
    by (simp add: collect_everything)
  have e: "endpoint_choice ?a = Everything" and k: "search_keywords ?a = []"
    by (simp_all add: everything_query_def)
  have u: "base_url Everything = str ''https://newsapi.org/v2/everything''"
    by (simp add: base_url_def str_def)
  have "api_calls (fetch_and_display_news test_runtime (respond JNull) ?a)
     = [(base_url Everything,
         [(''apiKey'', PStr (str ''key'')), (''q'', PStr []), (''pageSize'', PInt 42)])]"
    by (simp add: fetch_and_display_news_def c e respond_def Let_def)
  with k u show ?thesis by simp
qed

subsection \<open>A remote status other than ok (C7)\<close>

text \<open>
  C7. When the parameters are collected and the decoded body is an object whose \<^verbatim>\<open>status\<close>
  field is not the string \<^verbatim>\<open>ok\<close>, the tool returns the error envelope whose message is
  \<^verbatim>\<open>API returned status '\<close>, the status, \<^verbatim>\<open>': \<close> and the message field of the body (both as
  \<^verbatim>\<open>str\<close> formats them: a string is itself), and nothing is printed.
\<close>

theorem C7_remote_status_error:
  assumes "collect_params rt a = Some (Inr ps)"
    and "api_get (base_url (endpoint_choice a)) ps = Inr (JObj d)"
    and "map_of d (str ''status'') = Some st"
    and "st \<noteq> JStr (str ''ok'')"
  shows "returned (fetch_and_display_news rt api_get a) =
           Some (Inr (JObj [(str ''status'', JStr (str ''error'')),
                            (str ''message'',
                             JStr (str ''API returned status '' @ [39] @ py_str rt st @ [39] @ str '': ''
                                   @ py_str rt (dict_get d (str ''message''))))])) \<and>
         printed (fetch_and_display_news rt api_get a) = []"
  using assms by (simp add: fetch_and_display_news_def Let_def dict_get_def error_envelope_def)

text \<open>The theorem at a body with the status \<^verbatim>\<open>error\<close> and the message \<^verbatim>\<open>bad key\<close>.\<close>

theorem C7_remote_status_error_witness:
  "returned (fetch_and_display_news test_runtime
       (respond (JObj [(str ''status'', JStr (str ''error'')), (str ''message'', JStr (str ''bad key''))]))
       (everything_query (str ''bitcoin'') [] [str ''0'', str ''42'']))
     = Some (Inr (JObj [(str ''status'', JStr (str ''error'')),
                        (str ''message'',
                         JStr (str ''API returned status '' @ [39] @ str ''error'' @ [39] @ str '': ''
                               @ str ''bad key''))])) \<and>
   printed (fetch_and_display_news test_runtime
       (respond (JObj [(str ''status'', JStr (str ''error'')), (str ''message'', JStr (str ''bad key''))]))
       (everything_query (str ''bitcoin'') [] [str ''0'', str ''42''])) = []"
proof -
  let ?a = "everything_query (str ''bitcoin'') [] [str ''0'', str ''42'']"
  let ?ps = "[(''apiKey'', PStr (str ''key'')), (''q'', PStr (str ''bitcoin'')), (''pageSize'', PInt 42)]"
  let ?d = "[(str ''status'', JStr (str ''error'')), (str ''message'', JStr (str ''bad key''))]"
  have h1: "collect_params test_runtime ?a = Some (Inr ?ps)" by (simp add: collect_everything)
  have h2: "respond (JObj ?d) (base_url (endpoint_choice ?a)) ?ps = Inr (JObj ?d)"
    by (simp add: respond_def)
  have h3: "map_of ?d (str ''status'') = Some (JStr (str ''error''))" by simp
  have h4: "JStr (str ''error'') \<noteq> JStr (str ''ok'')" by (simp add: str_def)
  have m: "dict_get ?d (str ''message'') = JStr (str ''bad key'')"
    by (simp add: dict_get_def str_def)
  from C7_remote_status_error
         [where rt = test_runtime and a = ?a and ps = ?ps and api_get = "respond (JObj ?d)"
            and d = ?d and st = "JStr (str ''error'')", OF h1 h2 h3 h4] m
  show ?thesis by simp
qed

end
